theory Spec2Isabelle
  imports Complex_Main
begin

section \<open>IEEE binary64 rounding\<close>

text \<open>
  \<^verbatim>\<open>image.py\<close> rescales every frame in NumPy's \<^verbatim>\<open>float64\<close>. A finite binary64 value is a
  rational number, so the arithmetic is modelled on \<^typ>\<open>rat\<close>: every operation computes
  the exact result and rounds it to the nearest representable value, ties to the even
  significand (\<open>fl64\<close>). The exponent of a value is found by counting up from the smallest
  normal exponent \<open>-1022\<close>; values below \<open>2 powi (-1022)\<close> keep that exponent (the
  subnormal range). Overflow to infinity is outside the model: every quantity that the
  rescaling computes from integer samples of at most 64 bits stays below \<open>2 ^ 74\<close>.
\<close>

definition rne :: "rat \<Rightarrow> int" where
  "rne m = (let f = \<lfloor>m\<rfloor>; r = m - of_int f in
            if r < 1 / 2 then f
            else if 1 / 2 < r then f + 1
            else if even f then f else f + 1)"

fun expo_from :: "nat \<Rightarrow> int \<Rightarrow> rat \<Rightarrow> int" where
  "expo_from 0 e x = e"
| "expo_from (Suc n) e x = (if x < 2 powi (e + 1) then e else expo_from n (e + 1) x)"

definition expo :: "rat \<Rightarrow> int" where
  "expo x = expo_from 2046 (- 1022) \<bar>x\<bar>"

definition ulp :: "rat \<Rightarrow> rat" where
  "ulp x = 2 powi (expo x - 52)"

definition fl64 :: "rat \<Rightarrow> rat" where
  "fl64 x = of_int (rne (x / ulp x)) * ulp x"

section \<open>NumPy arrays\<close>

text \<open>
  \<^verbatim>\<open>ds.pixel_array\<close> is a NumPy array whose dtype pydicom derives from Bits Allocated and
  Pixel Representation of the data set: an unsigned or signed integer of 8, 16, 32 or 64
  bits. An array is its dtype, its shape and its samples in row-major order.
\<close>

datatype dtype = UInt8 | Int8 | UInt16 | Int16 | UInt32 | Int32 | UInt64 | Int64

fun dtype_bits :: "dtype \<Rightarrow> nat" where
  "dtype_bits UInt8 = 8"
| "dtype_bits Int8 = 8"
| "dtype_bits UInt16 = 16"
| "dtype_bits Int16 = 16"
| "dtype_bits UInt32 = 32"
| "dtype_bits Int32 = 32"
| "dtype_bits UInt64 = 64"
| "dtype_bits Int64 = 64"

fun dtype_signed :: "dtype \<Rightarrow> bool" where
  "dtype_signed Int8 = True"
| "dtype_signed Int16 = True"
| "dtype_signed Int32 = True"
| "dtype_signed Int64 = True"
| "dtype_signed _ = False"

definition dtype_lo :: "dtype \<Rightarrow> int" where
  "dtype_lo d = (if dtype_signed d then - (2 ^ (dtype_bits d - 1)) else 0)"

definition dtype_hi :: "dtype \<Rightarrow> int" where
  "dtype_hi d = (if dtype_signed d then 2 ^ (dtype_bits d - 1) - 1 else 2 ^ dtype_bits d - 1)"

record ndarray =
  dtype :: dtype
  shape :: "nat list"
  data :: "int list"

definition ndim :: "ndarray \<Rightarrow> nat" where
  "ndim a = length (shape a)"

definition wf_ndarray :: "ndarray \<Rightarrow> bool" where
  "wf_ndarray a \<longleftrightarrow>
     length (data a) = prod_list (shape a) \<and>
     list_all (\<lambda>v. dtype_lo (dtype a) \<le> v \<and> v \<le> dtype_hi (dtype a)) (data a)"

text \<open>
  \<^verbatim>\<open>pixel_array[i]\<close>: the \<open>i\<close>-th slice along the leading axis. The loops index with
  \<^verbatim>\<open>i in range(pixel_array.shape[0])\<close> only, so the index is never out of range.
\<close>

definition index0 :: "ndarray \<Rightarrow> nat \<Rightarrow> ndarray" where
  "index0 a i =
     (let m = prod_list (tl (shape a))
      in \<lparr>dtype = dtype a, shape = tl (shape a), data = take m (drop (i * m) (data a))\<rparr>)"

datatype exn =
    InvalidDicomError | FileNotFoundError | ValueError | TypeError | IndexError
  | OSError | OtherException

text \<open>\<^verbatim>\<open>frame.astype(np.float64)\<close> on integer samples.\<close>

definition astype_float64 :: "int list \<Rightarrow> rat list" where
  "astype_float64 vs = map (\<lambda>v. fl64 (of_int v)) vs"

text \<open>
  \<^verbatim>\<open>frame.astype(np.uint8)\<close> on float64 samples truncates towards zero. NumPy leaves the
  result for a value outside \<open>[0, 256)\<close> to the platform; the model wraps it modulo 256
  (what x86-64 does), and \<open>rescale_range\<close> below shows that the rescaling never
  produces such a value.
\<close>

definition astype_uint8 :: "rat \<Rightarrow> int" where
  "astype_uint8 y = (if 0 \<le> y then \<lfloor>y\<rfloor> else \<lceil>y\<rceil>) mod 256"

text \<open>
  Lines 75--84 (repeated at 117--126 and 148--156):
  \<^verbatim>\<open>
  if frame.dtype != np.uint8:
      frame = frame.astype(np.float64)
      min_val = np.min(frame)
      max_val = np.max(frame)
      if max_val != min_val:
           frame = 255 * (frame - min_val) / (max_val - min_val)
      else:
           frame = np.zeros_like(frame, dtype=np.float64)
      frame = frame.astype(np.uint8)
  \<close>
  \<^verbatim>\<open>np.min\<close> of an array without elements raises \<^verbatim>\<open>ValueError\<close>.
\<close>

definition rescale :: "rat \<Rightarrow> rat \<Rightarrow> rat \<Rightarrow> rat" where
  "rescale min_val max_val x = fl64 (fl64 (255 * fl64 (x - min_val)) / fl64 (max_val - min_val))"

definition normalize_frame :: "ndarray \<Rightarrow> exn + ndarray" where
  "normalize_frame frame =
     (if dtype frame \<noteq> UInt8 then
        (let xs = astype_float64 (data frame)
         in if xs = [] then Inl ValueError
            else
              (let min_val = Min (set xs);
                   max_val = Max (set xs);
                   ys = (if max_val \<noteq> min_val then map (rescale min_val max_val) xs
                         else map (\<lambda>_. 0) xs)
               in Inr \<lparr>dtype = UInt8, shape = shape frame, data = map astype_uint8 ys\<rparr>))
      else Inr frame)"


section \<open>The image encoder (Pillow)\<close>

text \<open>
  An image is its mode, its size and its pixel bytes. \<^verbatim>\<open>Image.fromarray(obj, mode)\<close> on
  a uint8 array (the only dtype that reaches it, see \<open>normalize_frame_dtype\<close>): without a
  mode the type map is consulted with the axes after the second one, which has rows for
  no extra axis (\<^verbatim>\<open>L\<close>), and for a trailing axis of 2 (\<^verbatim>\<open>LA\<close>), 3 (\<^verbatim>\<open>RGB\<close>) and 4
  (\<^verbatim>\<open>RGBA\<close>); any other key raises \<^verbatim>\<open>TypeError\<close>. An array with more axes than the
  mode allows raises \<^verbatim>\<open>ValueError\<close>. The size is
  \<^verbatim>\<open>(1 if ndim == 1 else shape[1], shape[0])\<close>.
\<close>

record image =
  mode :: string
  width :: nat
  height :: nat
  pixels :: "int list"

definition typemap_uint8 :: "nat list \<Rightarrow> exn + string" where
  "typemap_uint8 extra =
     (if extra = [] then Inr ''L''
      else if extra = [2] then Inr ''LA''
      else if extra = [3] then Inr ''RGB''
      else if extra = [4] then Inr ''RGBA''
      else Inl TypeError)"

definition ndmax :: "string \<Rightarrow> nat" where
  "ndmax m = (if m \<in> set [''1'', ''L'', ''I'', ''P'', ''F''] then 2 else if m = ''RGB'' then 3 else 4)"

definition fromarray :: "ndarray \<Rightarrow> string option \<Rightarrow> exn + image" where
  "fromarray obj mode_arg =
     (case (case mode_arg of None \<Rightarrow> typemap_uint8 (drop 2 (shape obj)) | Some m \<Rightarrow> Inr m) of
        Inl e \<Rightarrow> Inl e
      | Inr m \<Rightarrow>
          if ndmax m < ndim obj then Inl ValueError
          else if ndim obj = 0 then Inl IndexError
          else Inr \<lparr>mode = m,
                    width = (if ndim obj = 1 then 1 else shape obj ! 1),
                    height = shape obj ! 0,
                    pixels = data obj\<rparr>)"

section \<open>Paths, the file system and the standard output\<close>

text \<open>\<^verbatim>\<open>os.path.basename\<close>, \<^verbatim>\<open>os.path.splitext\<close> and \<^verbatim>\<open>os.path.join\<close> (POSIX flavour).\<close>

definition basename :: "string \<Rightarrow> string" where
  "basename p = rev (takeWhile (\<lambda>c. c \<noteq> CHR ''/'') (rev p))"

definition splitext :: "string \<Rightarrow> string \<times> string" where
  "splitext p =
     (let name = basename p;
          ext = rev (takeWhile (\<lambda>c. c \<noteq> CHR ''.'') (rev name));
          stem = take (length name - length ext - 1) name
      in if CHR ''.'' \<in> set name \<and> (\<exists>c \<in> set stem. c \<noteq> CHR ''.'')
         then (take (length p - length ext - 1) p, CHR ''.'' # ext)
         else (p, []))"

definition join :: "string \<Rightarrow> string \<Rightarrow> string" where
  "join a b =
     (if b \<noteq> [] \<and> hd b = CHR ''/'' then b
      else if a = [] \<or> last a = CHR ''/'' then a @ b
      else a @ ''/'' @ b)"

text \<open>The format specification \<^verbatim>\<open>{i:04d}\<close>: decimal digits, padded with zeros to four.\<close>

definition digit_char :: "nat \<Rightarrow> char" where
  "digit_char d = ''0123456789'' ! d"

function str_nat :: "nat \<Rightarrow> string" where
  "str_nat n = (if n < 10 then [digit_char n] else str_nat (n div 10) @ [digit_char (n mod 10)])"
  by pat_completeness auto
termination
  by (relation "measure id") auto

declare str_nat.simps [simp del]

definition format_04d :: "nat \<Rightarrow> string" where
  "format_04d i = replicate (4 - length (str_nat i)) CHR ''0'' @ str_nat i"

definition frame_filename :: "nat \<Rightarrow> string" where
  "frame_filename i = ''frame_'' @ format_04d i @ ''.png''"

text \<open>
  The number that a string of decimal digits denotes: the inverse of the formatting, by
  which distinct frame indices are shown to give distinct file names.
\<close>

definition digit_val :: "char \<Rightarrow> nat" where
  "digit_val c = of_char c - 48"

definition nat_of_str :: "string \<Rightarrow> nat" where
  "nat_of_str cs = foldl (\<lambda>a c. 10 * a + digit_val c) 0 cs"

text \<open>
  The diagnostics that the function prints, one constructor for each \<^verbatim>\<open>print\<close> call of
  \<^verbatim>\<open>extract_frames_from_dicom\<close>, in source order, with the values it interpolates.
\<close>

datatype msg =
    Processing string
  | InfoNoPixelData string
  | InfoReferencedImageSequence
  | FoundFrames nat
  | WarnFrameDims "nat list" nat
  | ExtractionComplete string string
  | FoundFramesMultiChannel nat
  | FoundSingleFrame
  | SavedSingleFrame string
  | WarnArrayDims nat string
  | ErrInvalidDicom string
  | ErrNotFound string
  | ErrUnexpected string exn

text \<open>
  What the function changes: the directories and files that exist, and the standard
  output. What it reads from its surroundings: the result of \<^verbatim>\<open>pydicom.dcmread\<close> on a
  path, the directory of the script, and whether the operating system lets a directory be
  made or a file be written (\<open>None\<close>) or raises.
\<close>

record state =
  dirs :: "string set"
  files :: "string \<rightharpoonup> image"
  stdout :: "msg list"

text \<open>
  A data set is the tags it holds and what reading its \<^verbatim>\<open>pixel_array\<close> property gives:
  the decoded array, or the exception of the decoder.
\<close>

record dataset =
  tags :: "(nat \<times> nat) list"
  pixel_array :: "exn + ndarray"

record world =
  dcmread :: "string \<Rightarrow> exn + dataset"
  script_dir :: string
  makedirs_error :: "string \<Rightarrow> exn option"
  save_error :: "string \<Rightarrow> exn option"

definition print :: "msg \<Rightarrow> state \<Rightarrow> state" where
  "print m s = s\<lparr>stdout := stdout s @ [m]\<rparr>"

definition exists :: "state \<Rightarrow> string \<Rightarrow> bool" where
  "exists s p \<longleftrightarrow> p \<in> dirs s \<or> files s p \<noteq> None"

definition makedirs :: "world \<Rightarrow> string \<Rightarrow> state \<Rightarrow> exn option \<times> state" where
  "makedirs w p s =
     (case makedirs_error w p of
        Some e \<Rightarrow> (Some e, s)
      | None \<Rightarrow> (None, s\<lparr>dirs := insert p (dirs s)\<rparr>))"

definition save :: "world \<Rightarrow> image \<Rightarrow> string \<Rightarrow> state \<Rightarrow> exn option \<times> state" where
  "save w im fp s =
     (case save_error w fp of
        Some e \<Rightarrow> (Some e, s)
      | None \<Rightarrow> (None, s\<lparr>files := (files s)(fp \<mapsto> im)\<rparr>))"


section \<open>\<^verbatim>\<open>extract_frames_from_dicom\<close>\<close>

text \<open>
  A statement of the function body either completes or raises: it returns the exception,
  if any, and the state at that point, so that what was written before an exception
  stays written. \<open>for_range\<close> is \<^verbatim>\<open>for i in range(num_frames)\<close>: it runs the body for
  each index in order and stops at the first exception.
\<close>

fun for_range :: "(nat \<Rightarrow> state \<Rightarrow> exn option \<times> state) \<Rightarrow> nat list \<Rightarrow> state \<Rightarrow> exn option \<times> state" where
  "for_range body [] s = (None, s)"
| "for_range body (i # js) s =
     (case body i s of
        (Some e, s') \<Rightarrow> (Some e, s')
      | (None, s') \<Rightarrow> for_range body js s')"

text \<open>Lines 98--102 and 131--135: the file name of frame \<open>i\<close>, and the write.\<close>

definition save_frame :: "world \<Rightarrow> string \<Rightarrow> nat \<Rightarrow> image \<Rightarrow> state \<Rightarrow> exn option \<times> state" where
  "save_frame w specific_output_path i im s =
     (let output_filename = join specific_output_path (frame_filename i)
      in save w im output_filename s)"

text \<open>
  Lines 72--102, the body of the loop of the rank-3 branch after \<^verbatim>\<open>frame = pixel_array[i]\<close>.
  The last case is the \<^verbatim>\<open>continue\<close>: a warning, and the loop goes on.
\<close>

definition process_frame_3d :: "world \<Rightarrow> string \<Rightarrow> nat \<Rightarrow> ndarray \<Rightarrow> state \<Rightarrow> exn option \<times> state" where
  "process_frame_3d w specific_output_path i frame0 s =
     (case normalize_frame frame0 of
        Inl e \<Rightarrow> (Some e, s)
      | Inr frame \<Rightarrow>
          if ndim frame = 2 then
            (case fromarray frame (Some ''L'') of
               Inl e \<Rightarrow> (Some e, s)
             | Inr im \<Rightarrow> save_frame w specific_output_path i im s)
          else if ndim frame = 3 \<and> last (shape frame) \<in> {3, 4} then
            (case fromarray frame None of
               Inl e \<Rightarrow> (Some e, s)
             | Inr im \<Rightarrow> save_frame w specific_output_path i im s)
          else (None, print (WarnFrameDims (shape frame) i) s))"

text \<open>Lines 114--135, the body of the loop of the rank-4 branch.\<close>

definition process_frame_4d :: "world \<Rightarrow> string \<Rightarrow> nat \<Rightarrow> ndarray \<Rightarrow> state \<Rightarrow> exn option \<times> state" where
  "process_frame_4d w specific_output_path i frame0 s =
     (case normalize_frame frame0 of
        Inl e \<Rightarrow> (Some e, s)
      | Inr frame \<Rightarrow>
          (case fromarray frame None of
             Inl e \<Rightarrow> (Some e, s)
           | Inr im \<Rightarrow> save_frame w specific_output_path i im s))"

text \<open>Lines 63--167: the dispatch on the rank of \<^verbatim>\<open>pixel_array\<close> (here \<open>arr\<close>); \<open>out_name\<close> and
  \<open>out\<close> are \<^verbatim>\<open>specific_output_folder_name\<close> and \<^verbatim>\<open>specific_output_path\<close>.\<close>

definition process_pixel_array ::
  "world \<Rightarrow> string \<Rightarrow> string \<Rightarrow> string \<Rightarrow> string \<Rightarrow> ndarray \<Rightarrow> state \<Rightarrow> exn option \<times> state" where
  "process_pixel_array w dicom_filepath base_output_folder out_name out arr s =
     (if ndim arr = 3 then
        (let num_frames = hd (shape arr);
             s1 = print (FoundFrames num_frames) s
         in case for_range (\<lambda>i. process_frame_3d w out i (index0 arr i))
                   [0..<num_frames] s1 of
              (Some e, s2) \<Rightarrow> (Some e, s2)
            | (None, s2) \<Rightarrow>
                (None, print (ExtractionComplete (basename dicom_filepath)
                                (join base_output_folder out_name)) s2))
      else if ndim arr = 4 then
        (let num_frames = hd (shape arr);
             s1 = print (FoundFramesMultiChannel num_frames) s
         in case for_range (\<lambda>i. process_frame_4d w out i (index0 arr i))
                   [0..<num_frames] s1 of
              (Some e, s2) \<Rightarrow> (Some e, s2)
            | (None, s2) \<Rightarrow>
                (None, print (ExtractionComplete (basename dicom_filepath)
                                (join base_output_folder out_name)) s2))
      else if ndim arr = 2 then
        (let s1 = print FoundSingleFrame s
         in case normalize_frame arr of
              Inl e \<Rightarrow> (Some e, s1)
            | Inr frame \<Rightarrow>
                (case fromarray frame (Some ''L'') of
                   Inl e \<Rightarrow> (Some e, s1)
                 | Inr im \<Rightarrow>
                     (let output_filename = join out ''single_frame.png''
                      in case save w im output_filename s1 of
                           (Some e, s2) \<Rightarrow> (Some e, s2)
                         | (None, s2) \<Rightarrow>
                             (None, print (SavedSingleFrame
                                (join (join base_output_folder out_name)
                                   ''single_frame.png'')) s2))))
      else (None, print (WarnArrayDims (ndim arr) (basename dicom_filepath)) s))"

text \<open>
  Lines 27--167, the body of the \<^verbatim>\<open>try\<close>. The tags are \<^verbatim>\<open>(0x7fe0, 0x0010)\<close>, Pixel Data,
  and \<^verbatim>\<open>(0x0008, 0x1140)\<close>, Referenced Image Sequence. \<open>script_dir\<close> stands for the
  directory of the script, or the working directory where \<^verbatim>\<open>__file__\<close> is not defined.
\<close>

definition pixel_data_tag :: "nat \<times> nat" where
  "pixel_data_tag = (32736, 16)"

definition referenced_image_sequence_tag :: "nat \<times> nat" where
  "referenced_image_sequence_tag = (8, 4416)"

definition specific_output_folder_name :: "string \<Rightarrow> string" where
  "specific_output_folder_name dicom_filepath =
     (let base_filename_without_ext = fst (splitext (basename dicom_filepath))
      in base_filename_without_ext @ ''_extracted'')"

definition specific_output_path :: "world \<Rightarrow> string \<Rightarrow> string \<Rightarrow> string" where
  "specific_output_path w dicom_filepath base_output_folder =
     join (join (script_dir w) base_output_folder) (specific_output_folder_name dicom_filepath)"

definition try_body :: "world \<Rightarrow> string \<Rightarrow> string \<Rightarrow> state \<Rightarrow> exn option \<times> state" where
  "try_body w dicom_filepath base_output_folder s =
     (case dcmread w dicom_filepath of
        Inl e \<Rightarrow> (Some e, s)
      | Inr ds \<Rightarrow>
          if pixel_data_tag \<notin> set (tags ds) then
            (let s1 = print (InfoNoPixelData (basename dicom_filepath)) s;
                 s2 = (if referenced_image_sequence_tag \<in> set (tags ds)
                       then print InfoReferencedImageSequence s1 else s1)
             in (None, s2))
          else
            (case pixel_array ds of
               Inl e \<Rightarrow> (Some e, s)
             | Inr arr \<Rightarrow>
                 (let out = specific_output_path w dicom_filepath base_output_folder
                  in case (if \<not> exists s out then makedirs w out s else (None, s)) of
                       (Some e, s1) \<Rightarrow> (Some e, s1)
                     | (None, s1) \<Rightarrow>
                         process_pixel_array w dicom_filepath base_output_folder
                           (specific_output_folder_name dicom_filepath) out arr s1)))"

text \<open>
  Lines 24--178: the first \<^verbatim>\<open>print\<close>, the \<^verbatim>\<open>try\<close> and its three handlers. The first
  component of the result is the exception that reaches the caller.
\<close>

definition extract_frames_from_dicom :: "world \<Rightarrow> string \<Rightarrow> string \<Rightarrow> state \<Rightarrow> exn option \<times> state" where
  "extract_frames_from_dicom w dicom_filepath base_output_folder s =
     (case try_body w dicom_filepath base_output_folder
             (print (Processing (basename dicom_filepath)) s) of
        (None, s') \<Rightarrow> (None, s')
      | (Some InvalidDicomError, s') \<Rightarrow>
          (None, print (ErrInvalidDicom (basename dicom_filepath)) s')
      | (Some FileNotFoundError, s') \<Rightarrow>
          (None, print (ErrNotFound dicom_filepath) s')
      | (Some e, s') \<Rightarrow>
          (None, print (ErrUnexpected (basename dicom_filepath) e) s'))"


section \<open>Concrete inputs\<close>

text \<open>
  A world in which \<^verbatim>\<open>scans/a.dcm\<close> decodes to a data set with pixel data \<open>arr\<close> and every
  other path is missing, the script lies in \<^verbatim>\<open>/srv\<close> and the file system never refuses; the
  same world with a disk that refuses the second frame; a data set without pixel data
  that references images stored elsewhere; and the empty file system.
\<close>

definition example_world :: "ndarray \<Rightarrow> world" where
  "example_world arr =
     \<lparr>dcmread = (\<lambda>p. if p = ''scans/a.dcm''
                      then Inr \<lparr>tags = [pixel_data_tag], pixel_array = Inr arr\<rparr>
                      else Inl FileNotFoundError),
      script_dir = ''/srv'',
      makedirs_error = (\<lambda>_. None),
      save_error = (\<lambda>_. None)\<rparr>"



definition empty_state :: state where
  "empty_state = \<lparr>dirs = {}, files = Map.empty, stdout = []\<rparr>"

text \<open>
  Pixel arrays: two 2 x 2 grayscale frames of 16-bit samples, the first flat; two 1 x 1
  frames of three channels; one 1 x 1 frame of five channels; and an array of rank 1.
\<close>

definition example_stack :: ndarray where
  "example_stack =
     \<lparr>dtype = UInt16, shape = [2, 2, 2], data = [100, 100, 100, 100, 0, 10, 500, 1000]\<rparr>"

definition example_color :: ndarray where
  "example_color = \<lparr>dtype = UInt8, shape = [2, 1, 1, 3], data = [1, 2, 3, 4, 5, 6]\<rparr>"

definition example_five_channels :: ndarray where
  "example_five_channels = \<lparr>dtype = UInt8, shape = [1, 1, 1, 5], data = [1, 2, 3, 4, 5]\<rparr>"

definition example_vector :: ndarray where
  "example_vector = \<lparr>dtype = UInt8, shape = [3], data = [1, 2, 3]\<rparr>"

section \<open>Rounding: what is exact\<close>

lemma rne_floor_le: "\<lfloor>m\<rfloor> \<le> rne m"
  by (simp add: rne_def Let_def)

lemma rne_le_floor_Suc: "rne m \<le> \<lfloor>m\<rfloor> + 1"
  by (simp add: rne_def Let_def)

lemma rne_of_int [simp]: "rne (of_int k) = k"
  by (simp add: rne_def Let_def)

lemma rne_ge:
  assumes "of_int k \<le> m"
  shows "k \<le> rne m"
proof -
  from assms have "k \<le> \<lfloor>m\<rfloor>" by (simp add: le_floor_iff)
  with rne_floor_le [of m] show ?thesis by linarith
qed

lemma rne_le:
  assumes "m \<le> of_int k"
  shows "rne m \<le> k"
proof (cases "m = of_int k")
  case True
  then show ?thesis by simp
next
  case False
  with assms have "m < of_int k" by simp
  then have "\<lfloor>m\<rfloor> < k" by (simp add: floor_less_iff)
  with rne_le_floor_Suc [of m] show ?thesis by simp
qed

lemma rne_mono:
  assumes "m \<le> m'"
  shows "rne m \<le> rne m'"
proof (cases "\<lfloor>m\<rfloor> = \<lfloor>m'\<rfloor>")
  case True
  with assms show ?thesis
    by (auto simp: rne_def Let_def)
next
  case False
  moreover from assms have "\<lfloor>m\<rfloor> \<le> \<lfloor>m'\<rfloor>" by (rule floor_mono)
  ultimately have "\<lfloor>m\<rfloor> + 1 \<le> \<lfloor>m'\<rfloor>" by simp
  with rne_le_floor_Suc [of m] rne_floor_le [of m'] show ?thesis by linarith
qed

lemma ulp_pos: "0 < ulp x"
  by (simp add: ulp_def)

text \<open>
  The rounded value stays between any two multiples of the unit in the last place that
  enclose the exact one; in particular such a multiple is not changed.
\<close>

lemma fl64_between:
  assumes "a \<le> x" "x \<le> b" "a = of_int ka * ulp x" "b = of_int kb * ulp x"
  shows "a \<le> fl64 x \<and> fl64 x \<le> b"
proof -
  have u: "0 < ulp x" by (rule ulp_pos)
  from assms u have "of_int ka \<le> x / ulp x" by (simp add: pos_le_divide_eq)
  then have 1: "ka \<le> rne (x / ulp x)" by (rule rne_ge)
  from assms u have "x / ulp x \<le> of_int kb" by (simp add: pos_divide_le_eq)
  then have 2: "rne (x / ulp x) \<le> kb" by (rule rne_le)
  from 1 have "(of_int ka :: rat) \<le> of_int (rne (x / ulp x))" by simp
  with u have "of_int ka * ulp x \<le> of_int (rne (x / ulp x)) * ulp x"
    by (simp only: mult_le_cancel_right_pos)
  moreover from 2 have "(of_int (rne (x / ulp x)) :: rat) \<le> of_int kb" by simp
  with u have "of_int (rne (x / ulp x)) * ulp x \<le> of_int kb * ulp x"
    by (simp only: mult_le_cancel_right_pos)
  ultimately show ?thesis using assms by (simp add: fl64_def)
qed

lemma two_powi_less_D: "(2::rat) powi a < 2 powi b \<Longrightarrow> a < b"
  using power_int_increasing [of b a "2::rat"] by (cases "a < b") auto

lemma two_powi_le_D: "(2::rat) powi a \<le> 2 powi b \<Longrightarrow> a \<le> b"
  using power_int_strict_increasing [of b a "2::rat"] by (cases "a \<le> b") auto

lemma expo_from_lower: "e0 \<le> expo_from n e0 x"
proof (induction n arbitrary: e0)
  case 0
  show ?case by simp
next
  case (Suc n)
  from Suc [of "e0 + 1"] show ?case by simp
qed

lemma expo_from_upper: "expo_from n e0 x \<le> e0 + int n"
proof (induction n arbitrary: e0)
  case 0
  show ?case by simp
next
  case (Suc n)
  from Suc [of "e0 + 1"] show ?case by simp
qed

lemma expo_from_le: "x < 2 powi (k + 1) \<Longrightarrow> e0 \<le> k \<Longrightarrow> expo_from n e0 x \<le> k"
proof (induction n arbitrary: e0)
  case 0
  then show ?case by simp
next
  case (Suc n)
  show ?case
  proof (cases "x < 2 powi (e0 + 1)")
    case True
    with Suc.prems show ?thesis by simp
  next
    case False
    with Suc.prems have "(2::rat) powi (e0 + 1) < 2 powi (k + 1)" by simp
    then have "e0 + 1 < k + 1" by (rule two_powi_less_D)
    with Suc.IH [of "e0 + 1"] Suc.prems False show ?thesis by simp
  qed
qed


lemma expo_le: "\<bar>x\<bar> < 2 powi (k + 1) \<Longrightarrow> - 1022 \<le> k \<Longrightarrow> expo x \<le> k"
  unfolding expo_def by (rule expo_from_le)

lemma expo_ge: "- 1022 \<le> expo x"
  unfolding expo_def by (rule expo_from_lower)

lemma multiple_of_ulp:
  assumes "expo x - 52 \<le> j"
  shows "\<exists>n. of_int m * 2 powi j = of_int n * ulp x"
proof -
  have "(2::rat) powi j = 2 powi (j - (expo x - 52)) * 2 powi (expo x - 52)"
    by (simp flip: power_int_add)
  also have "(2::rat) powi (j - (expo x - 52)) = of_int (2 ^ nat (j - (expo x - 52)))"
    using assms by (simp add: power_int_def)
  finally have "of_int m * 2 powi j = of_int (m * 2 ^ nat (j - (expo x - 52))) * ulp x"
    by (simp add: ulp_def)
  then show ?thesis ..
qed

lemma fl64_exact:
  assumes "\<bar>x\<bar> < 2 powi (k + 1)" "- 1022 \<le> k" "x = of_int m * 2 powi j" "k - 52 \<le> j"
  shows "fl64 x = x"
proof -
  from assms(1,2) have "expo x \<le> k" by (rule expo_le)
  with assms(4) have "expo x - 52 \<le> j" by simp
  then obtain n where "of_int m * 2 powi j = of_int n * ulp x"
    using multiple_of_ulp by blast
  with assms(3) have "x = of_int n * ulp x" by simp
  with fl64_between [of x x x n n] show ?thesis by simp
qed

lemma fl64_of_int:
  assumes "\<bar>n\<bar> < 2 ^ 53"
  shows "fl64 (of_int n) = of_int n"
proof (rule fl64_exact [where k = 52 and m = n and j = 0])
  from assms have "(of_int \<bar>n\<bar> :: rat) < of_int (2 ^ 53)" by (simp only: of_int_less_iff)
  then show "\<bar>rat_of_int n\<bar> < 2 powi (52 + 1)" by simp
qed simp_all

lemma fl64_quot_floor:
  assumes "0 \<le> a" "a \<le> 255 * d" "0 < d" "d \<le> 2 ^ 45"
  shows "\<lfloor>fl64 (of_int a / of_int d)\<rfloor> = a div d"
proof -
  define q :: rat where "q = of_int a / of_int d"
  define n where "n = a div d"
  define r where "r = a mod d"
  have a: "a = n * d + r" by (simp add: n_def r_def)
  have r: "0 \<le> r" "r + 1 \<le> d"
    unfolding r_def using pos_mod_bound [of d a] pos_mod_sign [of d a] assms(3) by linarith+
  have dpos: "(0::rat) < of_int d" using assms(3) by simp
  have q_eq: "q = of_int n + of_int r / of_int d"
    using dpos by (simp add: q_def a field_simps)
  have n0: "0 \<le> n" using assms by (simp add: n_def pos_imp_zdiv_nonneg_iff)
  have n255: "n \<le> 255"
  proof -
    have "a div d \<le> (255 * d) div d" using assms(2,3) by (intro zdiv_mono1) simp_all
    then show ?thesis using assms(3) by (simp add: n_def)
  qed
  have lo: "of_int n \<le> q"
    using r(1) dpos by (simp add: q_eq)
  have "(of_int r :: rat) / of_int d \<le> (of_int d - 1) / of_int d"
    using r(2) dpos by (intro divide_right_mono) (simp_all flip: of_int_diff add: of_int_le_iff [symmetric] del: of_int_le_iff)
  also have "\<dots> = 1 - 1 / of_int d" using dpos by (simp add: field_simps)
  also have "\<dots> \<le> 1 - 1 / 2 ^ 45"
  proof -
    have "(of_int d :: rat) \<le> of_int (2 ^ 45)" using assms(4) by (simp only: of_int_le_iff)
    then have "(1::rat) / 2 ^ 45 \<le> 1 / of_int d"
      using dpos by (intro divide_left_mono) simp_all
    then show ?thesis by simp
  qed
  finally have hi: "q \<le> of_int n + 1 - 1 / 2 ^ 45" by (simp add: q_eq)
  have "q \<le> of_int n + 1 - 1 / 2 ^ 45" by (rule hi)
  also have "\<dots> \<le> 255 + 1 - 1 / 2 ^ 45" using n255 by simp
  also have "\<dots> < 2 powi (7 + 1)" by simp
  finally have q256: "q < 2 powi (7 + 1)" .
  have "0 \<le> q" using lo n0 by (meson of_int_0_le_iff order_trans)
  with q256 have "\<bar>q\<bar> < 2 powi (7 + 1)" by simp
  then have "expo q \<le> 7" by (rule expo_le) simp
  then have e: "expo q - 52 \<le> - 45" by simp
  obtain ka where ka: "of_int (n * 2 ^ 45) * 2 powi (- 45) = of_int ka * ulp q"
    using multiple_of_ulp [OF e] by blast
  obtain kb where kb: "of_int ((n + 1) * 2 ^ 45 - 1) * 2 powi (- 45) = of_int kb * ulp q"
    using multiple_of_ulp [OF e] by blast
  have ea: "of_int (n * 2 ^ 45) * 2 powi (- 45) = (of_int n :: rat)"
    by (simp add: power_int_minus)
  have eb: "of_int ((n + 1) * 2 ^ 45 - 1) * 2 powi (- 45) = (of_int n + 1 - 1 / 2 ^ 45 :: rat)"
    by (simp add: power_int_minus field_simps)
  from fl64_between [of "of_int n" q "of_int n + 1 - 1 / 2 ^ 45" ka kb] lo hi ka kb ea eb
  have "of_int n \<le> fl64 q" "fl64 q \<le> of_int n + 1 - 1 / 2 ^ 45" by simp_all
  then have "of_int n \<le> fl64 q" "fl64 q < of_int n + 1" by simp_all
  then have "\<lfloor>fl64 q\<rfloor> = n" by (simp add: floor_unique)
  then show ?thesis by (simp add: q_def n_def)
qed

section \<open>Rounding: exponents, monotonicity and the relative error\<close>

lemma expo_from_ge:
  "2 powi k \<le> x \<Longrightarrow> k \<le> e0 + int n \<Longrightarrow> k \<le> expo_from n e0 x"
proof (induction n arbitrary: e0)
  case 0
  then show ?case by simp
next
  case (Suc n)
  show ?case
  proof (cases "x < 2 powi (e0 + 1)")
    case True
    with Suc.prems have "(2::rat) powi k < 2 powi (e0 + 1)" by simp
    then have "k < e0 + 1" by (rule two_powi_less_D)
    with True show ?thesis by simp
  next
    case False
    with Suc.IH [of "e0 + 1"] Suc.prems show ?thesis by simp
  qed
qed

lemma expo_lower: "2 powi k \<le> \<bar>x\<bar> \<Longrightarrow> k \<le> 1024 \<Longrightarrow> k \<le> expo x"
  unfolding expo_def by (rule expo_from_ge) simp_all

lemma expo_from_below:
  "2 powi e0 \<le> x \<Longrightarrow> 2 powi (expo_from n e0 x) \<le> x"
proof (induction n arbitrary: e0)
  case 0
  then show ?case by simp
next
  case (Suc n)
  show ?case
  proof (cases "x < 2 powi (e0 + 1)")
    case True
    with Suc.prems show ?thesis by simp
  next
    case False
    with Suc.IH [of "e0 + 1"] show ?thesis by simp
  qed
qed

lemma expo_from_above:
  "x < 2 powi (e0 + int n + 1) \<Longrightarrow> x < 2 powi (expo_from n e0 x + 1)"
proof (induction n arbitrary: e0)
  case 0
  then show ?case by simp
next
  case (Suc n)
  show ?case
  proof (cases "x < 2 powi (e0 + 1)")
    case True
    then show ?thesis by simp
  next
    case False
    from Suc.prems have "x < 2 powi (e0 + 1 + int n + 1)" by (simp add: add.commute add.left_commute)
    with Suc.IH [of "e0 + 1"] False show ?thesis by simp
  qed
qed

lemma expo_below: "2 powi (- 1022) \<le> \<bar>x\<bar> \<Longrightarrow> 2 powi (expo x) \<le> \<bar>x\<bar>"
  unfolding expo_def by (rule expo_from_below)

lemma expo_above: "\<bar>x\<bar> < 2 powi 1024 \<Longrightarrow> \<bar>x\<bar> < 2 powi (expo x + 1)"
  unfolding expo_def by (rule expo_from_above) simp

lemma expo_from_mono: "x \<le> y \<Longrightarrow> expo_from n e0 x \<le> expo_from n e0 y"
proof (induction n arbitrary: e0)
  case 0
  then show ?case by simp
next
  case (Suc n)
  from Suc.IH [of "e0 + 1"] Suc.prems expo_from_lower [of "e0 + 1" n y]
  show ?case by auto
qed

lemma expo_mono: "\<bar>x\<bar> \<le> \<bar>y\<bar> \<Longrightarrow> expo x \<le> expo y"
  unfolding expo_def by (rule expo_from_mono)


lemma expo_le_1024: "expo x \<le> 1024"
  unfolding expo_def using expo_from_upper [of 2046 "- 1022" "\<bar>x\<bar>"] by simp

lemma two_powi_expo_split: "(2::rat) powi (e + k) = 2 powi k * 2 powi e"
  by (simp add: power_int_add mult.commute)

lemma pow_as_ulp:
  assumes "0 \<le> k"
  shows "(2::rat) powi (expo x - 52 + k) = of_int (2 ^ nat k) * ulp x"
proof -
  have "(2::rat) powi (expo x - 52 + k) = 2 powi (expo x - 52) * 2 powi k"
    by (rule power_int_add) simp
  also have "(2::rat) powi k = of_int (2 ^ nat k)"
    using assms by (simp add: power_int_def)
  finally show ?thesis by (simp add: ulp_def mult.commute)
qed

lemma fl64_zero [simp]: "fl64 0 = 0"
  by (simp add: fl64_def rne_def)

lemma fl64_nonneg: "0 \<le> x \<Longrightarrow> 0 \<le> fl64 x"
  using fl64_between [of 0 x x 0] rne_ge [of 0 "x / ulp x"] ulp_pos [of x]
  by (simp add: fl64_def)

lemma fl64_le_binade:
  assumes "0 \<le> x" "x < 2 powi 1024"
  shows "fl64 x \<le> 2 powi (expo x + 1)"
proof -
  from assms have "\<bar>x\<bar> < 2 powi (expo x + 1)" using expo_above [of x] by simp
  then have 1: "x \<le> 2 powi (expo x + 1)" by simp
  have "expo x + 1 = expo x - 52 + 53" by simp
  then have "(2::rat) powi (expo x + 1) = 2 powi (expo x - 52 + 53)" by (simp only:)
  also have "\<dots> = of_int (2 ^ nat 53) * ulp x" by (rule pow_as_ulp) simp
  finally have 2: "(2::rat) powi (expo x + 1) = of_int (2 ^ nat 53) * ulp x" .
  from rne_le [of "x / ulp x" "2 ^ nat 53"] 1 2 ulp_pos [of x]
  have "rne (x / ulp x) \<le> 2 ^ nat 53" by (simp add: pos_divide_le_eq)
  then have "(of_int (rne (x / ulp x)) :: rat) \<le> of_int (2 ^ nat 53)" by (simp only: of_int_le_iff)
  then have "of_int (rne (x / ulp x)) * ulp x \<le> of_int (2 ^ nat 53) * ulp x"
    using ulp_pos [of x] by (simp only: mult_le_cancel_right_pos)
  with 2 show ?thesis by (simp add: fl64_def)
qed

lemma fl64_ge_binade:
  assumes "2 powi (expo x) \<le> x"
  shows "2 powi (expo x) \<le> fl64 x"
proof -
  have "expo x = expo x - 52 + 52" by simp
  then have "(2::rat) powi (expo x) = 2 powi (expo x - 52 + 52)" by (simp only:)
  also have "\<dots> = of_int (2 ^ nat 52) * ulp x" by (rule pow_as_ulp) simp
  finally have 2: "(2::rat) powi (expo x) = of_int (2 ^ nat 52) * ulp x" .
  from rne_ge [of "2 ^ nat 52" "x / ulp x"] assms 2 ulp_pos [of x]
  have "2 ^ nat 52 \<le> rne (x / ulp x)" by (simp add: pos_le_divide_eq)
  then have "(of_int (2 ^ nat 52) :: rat) \<le> of_int (rne (x / ulp x))" by (simp only: of_int_le_iff)
  then have "of_int (2 ^ nat 52) * ulp x \<le> of_int (rne (x / ulp x)) * ulp x"
    using ulp_pos [of x] by (simp only: mult_le_cancel_right_pos)
  with 2 show ?thesis by (simp add: fl64_def)
qed

lemma fl64_mono:
  assumes "0 \<le> x" "x \<le> y" "y < 2 powi 1024"
  shows "fl64 x \<le> fl64 y"
proof -
  from assms have xy: "\<bar>x\<bar> \<le> \<bar>y\<bar>" by simp
  then have le: "expo x \<le> expo y" by (rule expo_mono)
  show ?thesis
  proof (cases "expo x = expo y")
    case True
    then have u: "ulp y = ulp x" by (simp add: ulp_def)
    from assms(2) ulp_pos [of x] have "x / ulp x \<le> y / ulp x" by (simp add: divide_right_mono)
    then have "rne (x / ulp x) \<le> rne (y / ulp x)" by (rule rne_mono)
    then have "(of_int (rne (x / ulp x)) :: rat) \<le> of_int (rne (y / ulp x))" by (simp only: of_int_le_iff)
    then have "of_int (rne (x / ulp x)) * ulp x \<le> of_int (rne (y / ulp x)) * ulp x"
      using ulp_pos [of x] by (simp only: mult_le_cancel_right_pos)
    then show ?thesis by (simp add: fl64_def u)
  next
    case False
    with le have lt: "expo x + 1 \<le> expo y" by simp
    from assms have "fl64 x \<le> 2 powi (expo x + 1)" by (intro fl64_le_binade) simp_all
    also have "(2::rat) powi (expo x + 1) \<le> 2 powi (expo y)"
      using lt by (intro power_int_increasing) simp_all
    also have "\<dots> \<le> fl64 y"
    proof (rule fl64_ge_binade)
      have "- 1022 < expo y" using lt expo_ge [of x] by simp
      have "2 powi (- 1022) \<le> \<bar>y\<bar>"
      proof (rule ccontr)
        assume "\<not> 2 powi (- 1022) \<le> \<bar>y\<bar>"
        then have "\<bar>y\<bar> < 2 powi (- 1022)" by simp
        also have "(2::rat) powi (- 1022) \<le> 2 powi (- 1022 + 1)"
          by (intro power_int_increasing) simp_all
        finally have "expo y \<le> - 1022" by (rule expo_le) simp
        with \<open>- 1022 < expo y\<close> show False by simp
      qed
      then have "2 powi (expo y) \<le> \<bar>y\<bar>" by (rule expo_below)
      with assms show "2 powi (expo y) \<le> y" by simp
    qed
    finally show ?thesis .
  qed
qed

lemma rne_err: "\<bar>of_int (rne m) - m\<bar> \<le> 1 / 2"
proof -
  have "of_int \<lfloor>m\<rfloor> \<le> m" "m < of_int \<lfloor>m\<rfloor> + 1" by linarith+
  then show ?thesis by (auto simp: rne_def Let_def abs_le_iff)
qed

lemma fl64_rel_err:
  assumes "2 powi (- 1022) \<le> x"
  shows "\<bar>fl64 x - x\<bar> \<le> x * 2 powi (- 53)"
proof -
  have xpos: "0 < x" using assms by (rule less_le_trans [rotated]) simp
  have u: "0 < ulp x" by (rule ulp_pos)
  have "fl64 x - x = (of_int (rne (x / ulp x)) - x / ulp x) * ulp x"
    using u by (simp add: fl64_def algebra_simps)
  then have "\<bar>fl64 x - x\<bar> = \<bar>of_int (rne (x / ulp x)) - x / ulp x\<bar> * ulp x"
    using u by (simp add: abs_mult)
  also have "\<dots> \<le> 1 / 2 * ulp x"
    using rne_err [of "x / ulp x"] u by (intro mult_right_mono) simp_all
  also have "1 / 2 * ulp x = 2 powi (expo x) * 2 powi (- 53)"
    by (simp add: ulp_def power_int_diff power_int_minus)
  also have "\<dots> \<le> x * 2 powi (- 53)"
  proof (rule mult_right_mono)
    from assms xpos have "2 powi (- 1022) \<le> \<bar>x\<bar>" by simp
    then have "2 powi (expo x) \<le> \<bar>x\<bar>" by (rule expo_below)
    with xpos show "2 powi (expo x) \<le> x" by simp
  qed simp
  finally show ?thesis .
qed

section \<open>The rescaling in binary64\<close>

lemma fl64_pow2: 
  assumes "- 1022 \<le> k"
  shows "fl64 (2 powi k) = 2 powi k"
proof (rule fl64_exact [where k = k and m = 1 and j = k])
  have "(2::rat) powi k < 2 powi (k + 1)" by (intro power_int_strict_increasing) simp_all
  then show "\<bar>(2::rat) powi k\<bar> < 2 powi (k + 1)" by simp
qed (use assms in simp_all)

lemma fl64_one: "fl64 1 = 1"
  using fl64_of_int [of 1] by simp

lemma fl64_254: "fl64 254 = 254"
  using fl64_of_int [of 254] by simp

lemma fl64_below_256: "fl64 (256 - 1 / 2 ^ 45) = 256 - 1 / 2 ^ 45"
proof (rule fl64_exact [where k = 7 and m = "2 ^ 53 - 1" and j = "- 45"])
  show "\<bar>256 - 1 / 2 ^ 45 :: rat\<bar> < 2 powi (7 + 1)" by simp
  show "(256 - 1 / 2 ^ 45 :: rat) = of_int (2 ^ 53 - 1) * 2 powi (- 45)"
    by (simp add: power_int_minus field_simps)
qed simp_all

lemma cast_int64:
  assumes "\<bar>v\<bar> \<le> 2 ^ 64"
  shows "\<bar>fl64 (of_int v)\<bar> \<le> 2 ^ 64 \<and> (\<exists>k. fl64 (of_int v) = of_int k)"
proof -
  define x :: rat where "x = of_int v"
  from assms have "(of_int \<bar>v\<bar> :: rat) \<le> of_int (2 ^ 64)" by (simp only: of_int_le_iff)
  then have ax: "\<bar>x\<bar> \<le> 2 ^ 64" by (simp add: x_def)
  then have "\<bar>x\<bar> < 2 powi (64 + 1)" by simp
  then have e64: "expo x \<le> 64" by (rule expo_le) simp
  then have "expo x - 52 \<le> 64" by simp
  from multiple_of_ulp [OF this, of 1] multiple_of_ulp [OF this, of "- 1"]
  obtain kb ka where kb: "(2::rat) powi 64 = of_int kb * ulp x"
    and ka: "- ((2::rat) powi 64) = of_int ka * ulp x" by auto
  from ax have "- (2 ^ 64) \<le> x" "x \<le> 2 ^ 64" by (simp_all add: abs_le_iff)
  with fl64_between [of "- (2 ^ 64)" x "2 ^ 64" ka kb] ka kb
  have "- (2 ^ 64) \<le> fl64 x \<and> fl64 x \<le> 2 ^ 64" by simp
  then have b: "\<bar>fl64 x\<bar> \<le> 2 ^ 64" by (simp add: abs_le_iff)
  have "\<exists>k. fl64 x = of_int k"
  proof (cases "\<bar>v\<bar> < 2 ^ 53")
    case True
    then show ?thesis unfolding x_def using fl64_of_int by blast
  next
    case False
    then have "2 ^ 53 \<le> \<bar>v\<bar>" by simp
    then have "(of_int (2 ^ 53) :: rat) \<le> of_int \<bar>v\<bar>" by (simp only: of_int_le_iff)
    then have "2 powi 53 \<le> \<bar>x\<bar>" by (simp add: x_def)
    then have "53 \<le> expo x" by (rule expo_lower) simp
    then have "ulp x = of_int (2 ^ nat (expo x - 52))"
      by (simp add: ulp_def power_int_def)
    then have "fl64 x = of_int (rne (x / ulp x) * 2 ^ nat (expo x - 52))"
      by (simp add: fl64_def)
    then show ?thesis ..
  qed
  with b show ?thesis by (simp add: x_def)
qed

lemma rescale_max_bounds:
  assumes "1 \<le> D" "D \<le> 2 ^ 65"
  shows "254 \<le> fl64 (fl64 (255 * D) / D) \<and> fl64 (fl64 (255 * D) / D) \<le> 256 - 1 / 2 ^ 45"
proof -
  define N where "N = fl64 (255 * D)"
  define eps :: rat where "eps = 255 * 2 powi (- 53)"
  have Dpos: "0 < D" using assms by simp
  have "(2::rat) powi (- 1022) \<le> 1" by (simp add: power_int_minus field_simps)
  also have "\<dots> \<le> 255 * D" using assms by simp
  finally have "\<bar>N - 255 * D\<bar> \<le> 255 * D * 2 powi (- 53)"
    unfolding N_def by (rule fl64_rel_err)
  also have "255 * D * 2 powi (- 53) = eps * D" by (simp add: eps_def)
  finally have "255 * D - eps * D \<le> N" "N \<le> 255 * D + eps * D" by linarith+
  then have "(255 - eps) * D \<le> N" "N \<le> (255 + eps) * D" by (simp_all add: algebra_simps)
  then have lo: "255 - eps \<le> N / D" and hi: "N / D \<le> 255 + eps"
    using Dpos by (simp_all only: pos_le_divide_eq pos_divide_le_eq)
  have "(254::rat) \<le> 255 - eps" by (simp add: eps_def power_int_minus)
  with lo have lo': "254 \<le> N / D" by linarith
  have "(255::rat) + eps \<le> 256 - 1 / 2 ^ 45" by (simp add: eps_def power_int_minus)
  with hi have hi': "N / D \<le> 256 - 1 / 2 ^ 45" by linarith
  have "(256::rat) - 1 / 2 ^ 45 < 2 powi 1024" by simp
  with hi' have big: "N / D < 2 powi 1024" by (rule le_less_trans)
  have "fl64 254 \<le> fl64 (N / D)"
    using lo' big by (intro fl64_mono) simp_all
  moreover have "fl64 (N / D) \<le> fl64 (256 - 1 / 2 ^ 45)"
  proof (rule fl64_mono)
    show "0 \<le> N / D" using lo' by simp
    show "N / D \<le> 256 - 1 / 2 ^ 45" by (rule hi')
    show "(256::rat) - 1 / 2 ^ 45 < 2 powi 1024" by simp
  qed
  ultimately show ?thesis by (simp only: fl64_254 fl64_below_256 N_def)
qed

lemma rescale_range:
  assumes "mn \<le> x" "x \<le> mx" "1 \<le> mx - mn" "mx - mn \<le> 2 ^ 65"
  shows "0 \<le> rescale mn mx x \<and> rescale mn mx x \<le> rescale mn mx mx \<and>
         254 \<le> rescale mn mx mx \<and> rescale mn mx mx < 256 \<and> rescale mn mx mn = 0"
proof -
  define D where "D = fl64 (mx - mn)"
  define t where "t = fl64 (x - mn)"
  have "fl64 1 \<le> fl64 (mx - mn)" using assms by (intro fl64_mono) simp_all
  then have D1: "1 \<le> D" by (simp add: D_def fl64_one)
  have p65: "fl64 (2 ^ 65) = 2 ^ 65" using fl64_pow2 [of 65] by simp
  have "fl64 (mx - mn) \<le> fl64 (2 ^ 65)" using assms by (intro fl64_mono) simp_all
  then have D65: "D \<le> 2 ^ 65" by (simp only: D_def p65)
  have t0: "0 \<le> t" unfolding t_def using assms by (intro fl64_nonneg) simp
  have tD: "t \<le> D" unfolding t_def D_def using assms by (intro fl64_mono) simp_all
  have "255 * D \<le> 255 * 2 ^ 65" using D65 by simp
  also have "\<dots> < (2::rat) powi 1024" by simp
  finally have big: "255 * D < 2 powi 1024" .
  have u0: "0 \<le> fl64 (255 * t)" using t0 by (intro fl64_nonneg) simp
  have uN: "fl64 (255 * t) \<le> fl64 (255 * D)" using t0 tD big by (intro fl64_mono) simp_all
  have Dpos: "0 < D" using D1 by simp
  from rescale_max_bounds [OF D1 D65]
  have Y: "254 \<le> fl64 (fl64 (255 * D) / D)" "fl64 (fl64 (255 * D) / D) \<le> 256 - 1 / 2 ^ 45"
    by simp_all
  have N0: "0 \<le> fl64 (255 * D)" using Dpos by (intro fl64_nonneg) simp
  have ND: "fl64 (255 * D) / D < 2 powi 1024"
  proof -
    have "\<bar>fl64 (255 * D) - 255 * D\<bar> \<le> 255 * D * 2 powi (- 53)"
    proof (rule fl64_rel_err)
      have "(2::rat) powi (- 1022) \<le> 1" by (simp add: power_int_minus field_simps)
      also have "\<dots> \<le> 255 * D" using D1 by simp
      finally show "2 powi (- 1022) \<le> 255 * D" .
    qed
    then have "fl64 (255 * D) \<le> 255 * D + 255 * D * 2 powi (- 53)" by linarith
    also have "\<dots> \<le> 256 * D" using Dpos by (simp add: power_int_minus field_simps)
    finally have "fl64 (255 * D) / D \<le> 256" using Dpos by (simp add: pos_divide_le_eq)
    then show ?thesis by (rule le_less_trans) simp
  qed
  have q0: "0 \<le> fl64 (255 * t) / D" using u0 Dpos by simp
  have qq: "fl64 (255 * t) / D \<le> fl64 (255 * D) / D"
    using uN Dpos by (simp add: divide_right_mono)
  have r0: "0 \<le> fl64 (fl64 (255 * t) / D)" using q0 by (rule fl64_nonneg)
  have rr: "fl64 (fl64 (255 * t) / D) \<le> fl64 (fl64 (255 * D) / D)"
    using q0 qq ND by (rule fl64_mono)
  have "(256::rat) - 1 / 2 ^ 45 < 256" by simp
  with Y(2) have Y2: "fl64 (fl64 (255 * D) / D) < 256" by (rule le_less_trans)
  show ?thesis
    using r0 rr Y(1) Y2 by (simp add: rescale_def D_def t_def)
qed

section \<open>Normalization\<close>

text \<open>
  C2. A frame whose dtype is already \<open>uint8\<close> is not rescaled: normalization returns the
  frame itself, and the image that the encoder builds from it, in either mode, holds
  exactly the samples of the frame.
\<close>

theorem normalize_frame_uint8_identity:
  assumes "dtype frame = UInt8"
  shows "normalize_frame frame = Inr frame \<and>
         (\<forall>m im. fromarray frame m = Inr im \<longrightarrow> pixels im = data frame)"
  using assms
  by (auto simp: normalize_frame_def fromarray_def split: sum.splits if_splits option.splits)

theorem normalize_frame_uint8_identity_witness:
  "dtype \<lparr>dtype = UInt8, shape = [2, 2], data = [0, 7, 200, 255]\<rparr> = UInt8 \<and>
   normalize_frame \<lparr>dtype = UInt8, shape = [2, 2], data = [0, 7, 200, 255]\<rparr> =
     Inr \<lparr>dtype = UInt8, shape = [2, 2], data = [0, 7, 200, 255]\<rparr> \<and>
   fromarray \<lparr>dtype = UInt8, shape = [2, 2], data = [0, 7, 200, 255]\<rparr> (Some ''L'') =
     Inr \<lparr>mode = ''L'', width = 2, height = 2, pixels = [0, 7, 200, 255]\<rparr>"
proof -
  let ?f = "\<lparr>dtype = UInt8, shape = [2, 2], data = [0, 7, 200, 255]\<rparr>"
  have d: "dtype ?f = UInt8" by simp
  from normalize_frame_uint8_identity [OF d]
  have "normalize_frame ?f = Inr ?f" by (rule conjunct1)
  moreover have "fromarray ?f (Some ''L'') =
      Inr \<lparr>mode = ''L'', width = 2, height = 2, pixels = [0, 7, 200, 255]\<rparr>"
    by (simp add: fromarray_def ndmax_def ndim_def)
  ultimately show ?thesis by simp
qed

section \<open>Normalization of a frame that is not uint8\<close>

lemma rescale_exact:
  assumes "lo \<le> v" "v \<le> hi" "lo < hi" "hi - lo \<le> 2 ^ 45"
  shows "\<lfloor>rescale (of_int lo) (of_int hi) (of_int v)\<rfloor> = 255 * (v - lo) div (hi - lo)"
proof -
  have 1: "fl64 (of_int v - of_int lo) = of_int (v - lo)"
    using fl64_of_int [of "v - lo"] assms by simp
  have 2: "fl64 (of_int hi - of_int lo) = of_int (hi - lo)"
    using fl64_of_int [of "hi - lo"] assms by simp
  have 3: "fl64 (255 * of_int (v - lo)) = of_int (255 * (v - lo))"
    using fl64_of_int [of "255 * (v - lo)"] assms by simp
  have "\<lfloor>fl64 (of_int (255 * (v - lo)) / of_int (hi - lo))\<rfloor> = 255 * (v - lo) div (hi - lo)"
    using assms by (intro fl64_quot_floor) simp_all
  then show ?thesis by (simp only: rescale_def 1 2 3)
qed

lemma dtype_range_64: "- (2 ^ 64) \<le> dtype_lo d \<and> dtype_hi d \<le> 2 ^ 64"
  by (cases d) (simp_all add: dtype_lo_def dtype_hi_def)

lemma dtype_range_32:
  "dtype_bits d \<le> 32 \<Longrightarrow> - (2 ^ 31) \<le> dtype_lo d \<and> dtype_hi d \<le> 2 ^ 32"
  by (cases d) (simp_all add: dtype_lo_def dtype_hi_def)

lemma wf_sample_64:
  assumes "wf_ndarray a" "v \<in> set (data a)"
  shows "\<bar>v\<bar> \<le> 2 ^ 64"
proof -
  from assms have "dtype_lo (dtype a) \<le> v" "v \<le> dtype_hi (dtype a)"
    by (auto simp: wf_ndarray_def list_all_iff)
  with dtype_range_64 [of "dtype a"] show ?thesis by linarith
qed

lemma wf_sample_32:
  assumes "wf_ndarray a" "v \<in> set (data a)" "dtype_bits (dtype a) \<le> 32"
  shows "- (2 ^ 31) \<le> v \<and> v \<le> 2 ^ 32"
proof -
  from assms have "dtype_lo (dtype a) \<le> v" "v \<le> dtype_hi (dtype a)"
    by (auto simp: wf_ndarray_def list_all_iff)
  with dtype_range_32 [OF assms(3)] show ?thesis by linarith
qed

lemma float_sample:
  assumes "wf_ndarray a" "x \<in> set (astype_float64 (data a))"
  shows "\<bar>x\<bar> \<le> 2 ^ 64 \<and> (\<exists>k. x = of_int k)"
proof -
  from assms(2) obtain v where v: "v \<in> set (data a)" "x = fl64 (of_int v)"
    by (auto simp: astype_float64_def)
  from wf_sample_64 [OF assms(1) v(1)] cast_int64 [of v] v(2) show ?thesis by simp
qed

lemma astype_float64_exact:
  assumes "wf_ndarray a" "dtype_bits (dtype a) \<le> 32"
  shows "astype_float64 (data a) = map of_int (data a)"
  unfolding astype_float64_def
proof (rule map_cong [OF refl])
  fix v assume "v \<in> set (data a)"
  from wf_sample_32 [OF assms(1) this assms(2)] have "\<bar>v\<bar> < 2 ^ 53" by (simp add: abs_less_iff)
  then show "fl64 (of_int v) = of_int v" by (rule fl64_of_int)
qed

lemma Min_of_int: "vs \<noteq> [] \<Longrightarrow> Min (set (map of_int vs)) = (of_int (Min (set vs)) :: rat)"
  using mono_Min_commute [of "of_int :: int \<Rightarrow> rat" "set vs"] by (simp add: mono_def)

lemma Max_of_int: "vs \<noteq> [] \<Longrightarrow> Max (set (map of_int vs)) = (of_int (Max (set vs)) :: rat)"
  using mono_Max_commute [of "of_int :: int \<Rightarrow> rat" "set vs"] by (simp add: mono_def)

lemma astype_uint8_floor: "0 \<le> y \<Longrightarrow> y < 256 \<Longrightarrow> astype_uint8 y = \<lfloor>y\<rfloor>"
proof -
  assume a: "0 \<le> y" "y < 256"
  then have "0 \<le> \<lfloor>y\<rfloor>" "\<lfloor>y\<rfloor> < 256" by (simp_all add: floor_less_iff)
  with a show ?thesis by (simp add: astype_uint8_def)
qed

lemma normalize_frame_unfold:
  assumes "dtype frame \<noteq> UInt8" "data frame \<noteq> []"
  shows "normalize_frame frame =
     Inr \<lparr>dtype = UInt8, shape = shape frame,
          data = map astype_uint8
            (if Max (set (astype_float64 (data frame))) \<noteq> Min (set (astype_float64 (data frame)))
             then map (rescale (Min (set (astype_float64 (data frame))))
                               (Max (set (astype_float64 (data frame)))))
                    (astype_float64 (data frame))
             else map (\<lambda>_. 0) (astype_float64 (data frame)))\<rparr>"
  using assms by (simp add: normalize_frame_def Let_def astype_float64_def)

lemma rescale_on_samples:
  assumes wf: "wf_ndarray frame" and ne: "data frame \<noteq> []"
    and xs: "xs = astype_float64 (data frame)"
    and mn: "mn = Min (set xs)" and mx: "mx = Max (set xs)" and neq: "mx \<noteq> mn"
  shows "mn \<in> set xs" "mx \<in> set xs"
    and "\<forall>x \<in> set xs. 0 \<le> rescale mn mx x \<and> rescale mn mx x \<le> rescale mn mx mx"
    and "254 \<le> rescale mn mx mx" "rescale mn mx mx < 256" "rescale mn mx mn = 0"
proof -
  have xne: "set xs \<noteq> {}" using ne by (simp add: xs astype_float64_def)
  show mn_in: "mn \<in> set xs" unfolding mn using xne by (intro Min_in) simp_all
  show mx_in: "mx \<in> set xs" unfolding mx using xne by (intro Max_in) simp_all
  have bounds: "mn \<le> x \<and> x \<le> mx" if "x \<in> set xs" for x
    using that by (simp add: mn mx)
  from float_sample [OF wf] mn_in obtain k1 where k1: "mn = of_int k1" and b1: "\<bar>mn\<bar> \<le> 2 ^ 64"
    unfolding xs by blast
  from float_sample [OF wf] mx_in obtain k2 where k2: "mx = of_int k2" and b2: "\<bar>mx\<bar> \<le> 2 ^ 64"
    unfolding xs by blast
  from bounds [OF mx_in] neq have "mn < mx" by simp
  then have "k1 < k2" by (simp add: k1 k2)
  then have "k1 + 1 \<le> k2" by simp
  then have "(of_int (k1 + 1) :: rat) \<le> of_int k2" by (simp only: of_int_le_iff)
  then have d1: "1 \<le> mx - mn" by (simp add: k1 k2)
  have d65: "mx - mn \<le> 2 ^ 65" using b1 b2 by (simp add: abs_le_iff)
  have all: "0 \<le> rescale mn mx x \<and> rescale mn mx x \<le> rescale mn mx mx \<and>
         254 \<le> rescale mn mx mx \<and> rescale mn mx mx < 256 \<and> rescale mn mx mn = 0"
    if "x \<in> set xs" for x
    using bounds [OF that] d1 d65 by (intro rescale_range) simp_all
  from all show "\<forall>x \<in> set xs. 0 \<le> rescale mn mx x \<and> rescale mn mx x \<le> rescale mn mx mx"
    by blast
  from all [OF mn_in] show "254 \<le> rescale mn mx mx" "rescale mn mx mx < 256" "rescale mn mx mn = 0"
    by simp_all
qed

lemma normalize_nonuniform:
  assumes dt: "dtype frame \<noteq> UInt8" and wf: "wf_ndarray frame" and ne: "data frame \<noteq> []"
    and xs: "xs = astype_float64 (data frame)"
    and mn: "mn = Min (set xs)" and mx: "mx = Max (set xs)" and neq: "mx \<noteq> mn"
  shows "normalize_frame frame =
           Inr \<lparr>dtype = UInt8, shape = shape frame, data = map (\<lambda>x. \<lfloor>rescale mn mx x\<rfloor>) xs\<rparr>"
    and "list_all (\<lambda>x. 0 \<le> rescale mn mx x \<and> rescale mn mx x < 256) xs"
    and "Min (set (map (\<lambda>x. \<lfloor>rescale mn mx x\<rfloor>) xs)) = 0"
    and "Max (set (map (\<lambda>x. \<lfloor>rescale mn mx x\<rfloor>) xs)) = \<lfloor>rescale mn mx mx\<rfloor>"
    and "\<lfloor>rescale mn mx mx\<rfloor> = 254 \<or> \<lfloor>rescale mn mx mx\<rfloor> = 255"
proof -
  note R = rescale_on_samples [OF wf ne xs mn mx neq]
  have rng: "0 \<le> rescale mn mx x \<and> rescale mn mx x < 256" if "x \<in> set xs" for x
    using R(3) R(5) that by fastforce
  show "list_all (\<lambda>x. 0 \<le> rescale mn mx x \<and> rescale mn mx x < 256) xs"
    using rng by (simp add: list_all_iff)
  have "map astype_uint8 (map (rescale mn mx) xs) = map (\<lambda>x. \<lfloor>rescale mn mx x\<rfloor>) xs"
    using rng by (simp add: astype_uint8_floor)
  then show "normalize_frame frame =
           Inr \<lparr>dtype = UInt8, shape = shape frame, data = map (\<lambda>x. \<lfloor>rescale mn mx x\<rfloor>) xs\<rparr>"
    using neq by (simp add: normalize_frame_unfold [OF dt ne] xs [symmetric] mn [symmetric] mx [symmetric])
  show "Min (set (map (\<lambda>x. \<lfloor>rescale mn mx x\<rfloor>) xs)) = 0"
  proof (rule Min_eqI)
    show "finite (set (map (\<lambda>x. \<lfloor>rescale mn mx x\<rfloor>) xs))" by simp
    show "0 \<le> y" if "y \<in> set (map (\<lambda>x. \<lfloor>rescale mn mx x\<rfloor>) xs)" for y
      using that rng by auto
    show "0 \<in> set (map (\<lambda>x. \<lfloor>rescale mn mx x\<rfloor>) xs)"
      using R(1) R(6) by (force simp: image_iff)
  qed
  show "Max (set (map (\<lambda>x. \<lfloor>rescale mn mx x\<rfloor>) xs)) = \<lfloor>rescale mn mx mx\<rfloor>"
  proof (rule Max_eqI)
    show "finite (set (map (\<lambda>x. \<lfloor>rescale mn mx x\<rfloor>) xs))" by simp
    show "y \<le> \<lfloor>rescale mn mx mx\<rfloor>" if "y \<in> set (map (\<lambda>x. \<lfloor>rescale mn mx x\<rfloor>) xs)" for y
      using that R(3) by (auto intro: floor_mono)
    show "\<lfloor>rescale mn mx mx\<rfloor> \<in> set (map (\<lambda>x. \<lfloor>rescale mn mx x\<rfloor>) xs)"
      using R(2) by (simp add: image_iff) blast
  qed
  have "254 \<le> \<lfloor>rescale mn mx mx\<rfloor>" using R(4) by (simp add: le_floor_iff)
  moreover have "\<lfloor>rescale mn mx mx\<rfloor> < 256" using R(5) by (simp add: floor_less_iff)
  ultimately show "\<lfloor>rescale mn mx mx\<rfloor> = 254 \<or> \<lfloor>rescale mn mx mx\<rfloor> = 255" by linarith
qed

lemma normalize_uniform:
  assumes dt: "dtype frame \<noteq> UInt8" and ne: "data frame \<noteq> []"
    and eq: "Max (set (astype_float64 (data frame))) = Min (set (astype_float64 (data frame)))"
  shows "normalize_frame frame =
           Inr \<lparr>dtype = UInt8, shape = shape frame, data = replicate (length (data frame)) 0\<rparr>"
proof -
  have "map astype_uint8 (map (\<lambda>_. 0) (astype_float64 (data frame))) =
        replicate (length (data frame)) 0"
    by (simp add: astype_uint8_def astype_float64_def map_replicate_const)
  with eq show ?thesis by (simp add: normalize_frame_unfold [OF dt ne])
qed

lemma normalize_32:
  assumes dt: "dtype frame \<noteq> UInt8" and wf: "wf_ndarray frame" and ne: "data frame \<noteq> []"
    and b32: "dtype_bits (dtype frame) \<le> 32"
    and lo: "lo = Min (set (data frame))" and hi: "hi = Max (set (data frame))"
  shows "astype_float64 (data frame) = map of_int (data frame)"
    and "Min (set (astype_float64 (data frame))) = of_int lo"
    and "Max (set (astype_float64 (data frame))) = of_int hi"
    and "hi \<noteq> lo \<Longrightarrow>
           map (\<lambda>x. \<lfloor>rescale (of_int lo) (of_int hi) x\<rfloor>) (astype_float64 (data frame)) =
           map (\<lambda>v. 255 * (v - lo) div (hi - lo)) (data frame)"
    and "hi \<noteq> lo \<Longrightarrow> \<lfloor>rescale (of_int lo) (of_int hi) (of_int hi)\<rfloor> = 255"
proof -
  show xs: "astype_float64 (data frame) = map of_int (data frame)"
    using wf b32 by (rule astype_float64_exact)
  show "Min (set (astype_float64 (data frame))) = of_int lo"
    unfolding xs lo using ne by (rule Min_of_int)
  show "Max (set (astype_float64 (data frame))) = of_int hi"
    unfolding xs hi using ne by (rule Max_of_int)
  have fin: "finite (set (data frame))" "set (data frame) \<noteq> {}" using ne by simp_all
  have lo_in: "lo \<in> set (data frame)" unfolding lo using fin by (rule Min_in)
  have hi_in: "hi \<in> set (data frame)" unfolding hi using fin by (rule Max_in)
  have rng: "lo \<le> v \<and> v \<le> hi" if "v \<in> set (data frame)" for v
    using that by (simp add: lo hi)
  from wf_sample_32 [OF wf lo_in b32] wf_sample_32 [OF wf hi_in b32]
  have span: "hi - lo \<le> 2 ^ 45" by simp
  {
    assume neq: "hi \<noteq> lo"
    with rng [OF hi_in] have lt: "lo < hi" by simp
    have ex: "\<lfloor>rescale (of_int lo) (of_int hi) (of_int v)\<rfloor> = 255 * (v - lo) div (hi - lo)"
      if "v \<in> set (data frame)" for v
      using rng [OF that] lt span by (intro rescale_exact) simp_all
    then show "map (\<lambda>x. \<lfloor>rescale (of_int lo) (of_int hi) x\<rfloor>) (astype_float64 (data frame)) =
           map (\<lambda>v. 255 * (v - lo) div (hi - lo)) (data frame)"
      by (simp add: xs)
    from lt have "hi - lo \<noteq> 0" by simp
    then have "255 * (hi - lo) div (hi - lo) = 255" by (rule nonzero_mult_div_cancel_right)
    with ex [OF hi_in] show "\<lfloor>rescale (of_int lo) (of_int hi) (of_int hi)\<rfloor> = 255"
      by (simp only:)
  }
qed


text \<open>
  C1, as the code has it. A frame of an integer dtype other than \<open>uint8\<close> that has at
  least one sample is normalized to a \<open>uint8\<close> frame of the same shape. With \<open>min_val\<close>
  and \<open>max_val\<close> the least and greatest sample after the cast to float64: if they differ,
  every output sample is the rescaled value \<open>255 * (x - min_val) / (max_val - min_val)\<close>,
  computed in float64, which lies in \<open>[0, 256)\<close> and is truncated; the least output is 0
  and the greatest is 255 or, by rounding, 254; if they are equal, every output sample is
  0. For the dtypes of at most 32 bits the cast is exact and the float64 computation is
  exact up to the final truncation: \<open>min_val\<close> and \<open>max_val\<close> are the least and greatest
  sample, the output is \<open>255 * (v - lo) div (hi - lo)\<close> on the integer samples, and its
  greatest value is 255.
\<close>

theorem normalize_frame_rescales:
  assumes "dtype frame \<noteq> UInt8" and "wf_ndarray frame" and "data frame \<noteq> []"
  shows "\<exists>out. normalize_frame frame = Inr out \<and> dtype out = UInt8 \<and> shape out = shape frame \<and>
           length (data out) = length (data frame) \<and>
           (let xs = astype_float64 (data frame); min_val = Min (set xs); max_val = Max (set xs)
            in (max_val \<noteq> min_val \<longrightarrow>
                  data out = map (\<lambda>x. \<lfloor>rescale min_val max_val x\<rfloor>) xs \<and>
                  list_all (\<lambda>x. 0 \<le> rescale min_val max_val x \<and> rescale min_val max_val x < 256) xs \<and>
                  Min (set (data out)) = 0 \<and>
                  (Max (set (data out)) = 254 \<or> Max (set (data out)) = 255)) \<and>
               (max_val = min_val \<longrightarrow> data out = replicate (length (data frame)) 0)) \<and>
           (dtype_bits (dtype frame) \<le> 32 \<longrightarrow>
              (let lo = Min (set (data frame)); hi = Max (set (data frame))
               in (hi \<noteq> lo \<longrightarrow>
                     data out = map (\<lambda>v. 255 * (v - lo) div (hi - lo)) (data frame) \<and>
                     Max (set (data out)) = 255) \<and>
                  (hi = lo \<longrightarrow> data out = replicate (length (data frame)) 0)))"
proof -
  define xs where "xs = astype_float64 (data frame)"
  define mn where "mn = Min (set xs)"
  define mx where "mx = Max (set xs)"
  define lo where "lo = Min (set (data frame))"
  define hi where "hi = Max (set (data frame))"
  note A = assms
  have len: "length xs = length (data frame)" by (simp add: xs_def astype_float64_def)
  show ?thesis
  proof (cases "mx = mn")
    case True
    define out where "out = \<lparr>dtype = UInt8, shape = shape frame,
      data = replicate (length (data frame)) 0\<rparr>"
    have U: "normalize_frame frame = Inr out"
      using A(1) A(3) True unfolding mx_def mn_def xs_def out_def by (rule normalize_uniform)
    have basic: "dtype out = UInt8" "shape out = shape frame"
      "length (data out) = length (data frame)" "data out = replicate (length (data frame)) 0"
      by (simp_all add: out_def)
    have part1: "(mx \<noteq> mn \<longrightarrow>
                  data out = map (\<lambda>x. \<lfloor>rescale mn mx x\<rfloor>) xs \<and>
                  list_all (\<lambda>x. 0 \<le> rescale mn mx x \<and> rescale mn mx x < 256) xs \<and>
                  Min (set (data out)) = 0 \<and>
                  (Max (set (data out)) = 254 \<or> Max (set (data out)) = 255)) \<and>
               (mx = mn \<longrightarrow> data out = replicate (length (data frame)) 0)"
      using True basic(4) by simp
    have part2: "dtype_bits (dtype frame) \<le> 32 \<longrightarrow>
              ((hi \<noteq> lo \<longrightarrow>
                     data out = map (\<lambda>v. 255 * (v - lo) div (hi - lo)) (data frame) \<and>
                     Max (set (data out)) = 255) \<and>
                  (hi = lo \<longrightarrow> data out = replicate (length (data frame)) 0))"
    proof
      assume b: "dtype_bits (dtype frame) \<le> 32"
      note N = normalize_32 [OF A b lo_def hi_def]
      from True N(2) N(3) have "hi = lo" by (simp add: mx_def mn_def xs_def)
      with basic(4) show "(hi \<noteq> lo \<longrightarrow>
                     data out = map (\<lambda>v. 255 * (v - lo) div (hi - lo)) (data frame) \<and>
                     Max (set (data out)) = 255) \<and>
                  (hi = lo \<longrightarrow> data out = replicate (length (data frame)) 0)" by simp
    qed
    from U basic(1-3) part1 part2 show ?thesis
      unfolding Let_def xs_def mn_def mx_def lo_def hi_def by blast
  next
    case False
    define out where "out = \<lparr>dtype = UInt8, shape = shape frame,
      data = map (\<lambda>x. \<lfloor>rescale mn mx x\<rfloor>) xs\<rparr>"
    note G = normalize_nonuniform [OF A xs_def mn_def mx_def False]
    have U: "normalize_frame frame = Inr out" using G(1) by (simp add: out_def)
    have basic: "dtype out = UInt8" "shape out = shape frame"
      "length (data out) = length (data frame)"
      "data out = map (\<lambda>x. \<lfloor>rescale mn mx x\<rfloor>) xs"
      by (simp_all add: out_def len)
    have part1: "(mx \<noteq> mn \<longrightarrow>
                  data out = map (\<lambda>x. \<lfloor>rescale mn mx x\<rfloor>) xs \<and>
                  list_all (\<lambda>x. 0 \<le> rescale mn mx x \<and> rescale mn mx x < 256) xs \<and>
                  Min (set (data out)) = 0 \<and>
                  (Max (set (data out)) = 254 \<or> Max (set (data out)) = 255)) \<and>
               (mx = mn \<longrightarrow> data out = replicate (length (data frame)) 0)"
      using False G(2) G(3) G(4) G(5) by (simp only: basic(4)) simp
    have part2: "dtype_bits (dtype frame) \<le> 32 \<longrightarrow>
              ((hi \<noteq> lo \<longrightarrow>
                     data out = map (\<lambda>v. 255 * (v - lo) div (hi - lo)) (data frame) \<and>
                     Max (set (data out)) = 255) \<and>
                  (hi = lo \<longrightarrow> data out = replicate (length (data frame)) 0))"
    proof
      assume b: "dtype_bits (dtype frame) \<le> 32"
      note N = normalize_32 [OF A b lo_def hi_def]
      have mnlo: "mn = of_int lo" and mxhi: "mx = of_int hi"
        using N(2) N(3) by (simp_all add: mn_def mx_def xs_def)
      with False have neq: "hi \<noteq> lo" by auto
      have d: "data out = map (\<lambda>v. 255 * (v - lo) div (hi - lo)) (data frame)"
        using N(4) [OF neq] by (simp only: basic(4) mnlo mxhi xs_def)
      have "Max (set (data out)) = \<lfloor>rescale mn mx mx\<rfloor>" using G(4) by (simp only: basic(4))
      also have "\<dots> = 255" using N(5) [OF neq] by (simp only: mnlo mxhi)
      finally have m: "Max (set (data out)) = 255" .
      from d m neq show "(hi \<noteq> lo \<longrightarrow>
                     data out = map (\<lambda>v. 255 * (v - lo) div (hi - lo)) (data frame) \<and>
                     Max (set (data out)) = 255) \<and>
                  (hi = lo \<longrightarrow> data out = replicate (length (data frame)) 0)" by blast
    qed
    from U basic(1-3) part1 part2 show ?thesis
      unfolding Let_def xs_def mn_def mx_def lo_def hi_def by blast
  qed
qed

theorem normalize_frame_rescales_witness:
  "dtype \<lparr>dtype = UInt16, shape = [2, 2], data = [0, 100, 500, 1000]\<rparr> \<noteq> UInt8 \<and>
   wf_ndarray \<lparr>dtype = UInt16, shape = [2, 2], data = [0, 100, 500, 1000]\<rparr> \<and>
   data \<lparr>dtype = UInt16, shape = [2, 2], data = [0, 100, 500, 1000]\<rparr> \<noteq> [] \<and>
   normalize_frame \<lparr>dtype = UInt16, shape = [2, 2], data = [0, 100, 500, 1000]\<rparr> =
     Inr \<lparr>dtype = UInt8, shape = [2, 2], data = [0, 25, 127, 255]\<rparr>"
proof -
  let ?f = "\<lparr>dtype = UInt16, shape = [2, 2], data = [0, 100, 500, 1000]\<rparr>"
  have h1: "dtype ?f \<noteq> UInt8" by simp
  have h2: "wf_ndarray ?f" by (simp add: wf_ndarray_def dtype_lo_def dtype_hi_def)
  have h3: "data ?f \<noteq> []" by simp
  from normalize_frame_rescales [OF h1 h2 h3]
  obtain out where o: "normalize_frame ?f = Inr out" "dtype out = UInt8" "shape out = [2, 2]"
    and d: "data out = [0, 25, 127, 255]"
    by (auto simp: Let_def)
  from o(2,3) d have "out = \<lparr>dtype = UInt8, shape = [2, 2], data = [0, 25, 127, 255]\<rparr>"
    by (cases out) simp
  with o(1) h1 h2 h3 show ?thesis by simp
qed

section \<open>Rounding at 64 bits\<close>

text \<open>
  Two frames of 64-bit samples: one whose greatest sample is rescaled to 254, since
  \<open>255 * d\<close> is rounded before the division; and one whose samples differ but agree
  after the cast.
\<close>

lemma rne_nearest:
  assumes "\<bar>m - of_int f\<bar> < 1 / 2"
  shows "rne m = f"
proof -
  from rne_err [of m] assms have "\<bar>(of_int (rne m) :: rat) - of_int f\<bar> < 1" by linarith
  then have "\<bar>(of_int (rne m - f) :: rat)\<bar> < of_int 1" by simp
  then have "\<bar>rne m - f\<bar> < 1" by (simp only: of_int_abs [symmetric] of_int_less_iff)
  then show ?thesis by simp
qed

lemma fl64_eval:
  assumes "2 powi e \<le> \<bar>x\<bar>" "\<bar>x\<bar> < 2 powi (e + 1)" "- 1022 \<le> e" "e \<le> 1023"
    and "\<bar>x / 2 powi (e - 52) - of_int f\<bar> < 1 / 2"
  shows "fl64 x = of_int f * 2 powi (e - 52)"
proof -
  from assms(2,3) have "expo x \<le> e" by (rule expo_le)
  moreover from assms(1,4) have "e \<le> expo x" by (intro expo_lower) simp_all
  ultimately have "expo x = e" by simp
  with rne_nearest [OF assms(5)] show ?thesis by (simp add: fl64_def ulp_def)
qed

lemma rescale_254_example:
  "\<lfloor>rescale 0 (5424380251030178 * 2 ^ 10) (5424380251030178 * 2 ^ 10)\<rfloor> = 254"
proof -
  let ?D = "5424380251030178 * 2 ^ 10 :: rat"
  have d: "fl64 ?D = ?D"
    by (rule fl64_exact [where k = 62 and m = 5424380251030178 and j = 10]) simp_all
  have "fl64 (255 * ?D) = of_int 5403191265674591 * 2 powi (70 - 52)"
    by (rule fl64_eval) simp_all
  then have n: "fl64 (255 * ?D) = 5403191265674591 * 2 ^ 18" by simp
  have "fl64 (5403191265674591 * 2 ^ 18 / ?D) = of_int 8972014882652159 * 2 powi (7 - 52)"
    by (rule fl64_eval) (simp_all add: power_int_minus)
  then have q: "fl64 (5403191265674591 * 2 ^ 18 / ?D) = 8972014882652159 / 2 ^ 45"
    by (simp add: power_int_minus)
  have "\<lfloor>8972014882652159 / 2 ^ 45 :: rat\<rfloor> = 254"
    by (rule floor_unique) simp_all
  then show ?thesis
    by (simp only: rescale_def diff_zero d n q)
qed

lemma normalize_254_example:
  "normalize_frame \<lparr>dtype = Int64, shape = [2], data = [0, 5554565377054902272]\<rparr> =
     Inr \<lparr>dtype = UInt8, shape = [2], data = [0, 254]\<rparr>"
proof -
  let ?f = "\<lparr>dtype = Int64, shape = [2], data = [0, 5554565377054902272]\<rparr>"
  let ?D = "5424380251030178 * 2 ^ 10 :: rat"
  have D: "(5554565377054902272 :: rat) = ?D" by simp
  have d: "fl64 ?D = ?D"
    by (rule fl64_exact [where k = 62 and m = 5424380251030178 and j = 10]) simp_all
  have xs: "astype_float64 (data ?f) = [0, ?D]"
    by (simp only: astype_float64_def ndarray.simps list.map of_int_0 of_int_numeral fl64_zero D d)
  have mn: "(0::rat) = Min (set [0, ?D])" by simp
  have mx: "?D = Max (set [0, ?D])" by simp
  have dt: "dtype ?f \<noteq> UInt8" by simp
  have wf: "wf_ndarray ?f" by (simp add: wf_ndarray_def dtype_lo_def dtype_hi_def)
  have ne: "data ?f \<noteq> []" by simp
  have neq: "?D \<noteq> 0" by simp
  have r0: "rescale 0 ?D 0 = 0" by (simp add: rescale_def)
  from normalize_nonuniform(1) [OF dt wf ne xs [symmetric] mn mx neq]
  show ?thesis
    by (simp only: list.map r0 rescale_254_example floor_zero ndarray.simps)
qed

text \<open>
  The claim as stated, that a frame whose values are not all equal is stretched to the
  range from 0 to 255, fails for 64-bit samples beyond \<open>2 ^ 53\<close>: the two samples
  \<open>2 ^ 54\<close> and \<open>2 ^ 54 + 1\<close> are the same float64 value, the frame counts as flat, and
  the output is all zero.
\<close>

theorem int64_collapse_counterexample:
  "dtype \<lparr>dtype = Int64, shape = [2], data = [2 ^ 54, 2 ^ 54 + 1]\<rparr> \<noteq> UInt8 \<and>
   wf_ndarray \<lparr>dtype = Int64, shape = [2], data = [2 ^ 54, 2 ^ 54 + 1]\<rparr> \<and>
   Max (set (data \<lparr>dtype = Int64, shape = [2], data = [2 ^ 54, 2 ^ 54 + 1]\<rparr>)) \<noteq>
   Min (set (data \<lparr>dtype = Int64, shape = [2], data = [2 ^ 54, 2 ^ 54 + 1]\<rparr>)) \<and>
   normalize_frame \<lparr>dtype = Int64, shape = [2], data = [2 ^ 54, 2 ^ 54 + 1]\<rparr> =
     Inr \<lparr>dtype = UInt8, shape = [2], data = [0, 0]\<rparr>"
proof -
  let ?f = "\<lparr>dtype = Int64, shape = [2], data = [2 ^ 54, 2 ^ 54 + 1]\<rparr>"
  have a: "fl64 (2 ^ 54) = 2 ^ 54" using fl64_pow2 [of 54] by simp
  have "fl64 (2 ^ 54 + 1) = of_int (2 ^ 52) * 2 powi (54 - 52)"
    by (rule fl64_eval) simp_all
  then have b: "fl64 (2 ^ 54 + 1) = 2 ^ 54" by simp
  have xs: "astype_float64 (data ?f) = [2 ^ 54, 2 ^ 54]"
    using a b by (simp add: astype_float64_def)
  have "Max (set (astype_float64 (data ?f))) = Min (set (astype_float64 (data ?f)))"
    unfolding xs by simp
  from normalize_uniform [OF _ _ this]
  have n: "normalize_frame ?f = Inr \<lparr>dtype = UInt8, shape = [2], data = [0, 0]\<rparr>" by simp
  have w: "wf_ndarray ?f" by (simp add: wf_ndarray_def dtype_lo_def dtype_hi_def)
  have m: "Max (set (data ?f)) \<noteq> Min (set (data ?f))" by simp
  from n w m show ?thesis by simp
qed

section \<open>File names\<close>

lemma digit_val_digit_char: "d < 10 \<Longrightarrow> digit_val (digit_char d) = d"
proof -
  assume "d < 10"
  then have "d \<in> {0, 1, 2, 3, 4, 5, 6, 7, 8, 9}" by auto
  then show ?thesis by (auto simp: digit_val_def digit_char_def)
qed

lemma nat_of_str_snoc: "nat_of_str (cs @ [c]) = 10 * nat_of_str cs + digit_val c"
  by (simp add: nat_of_str_def)

lemma nat_of_str_str_nat: "nat_of_str (str_nat n) = n"
proof (induction n rule: str_nat.induct)
  case (1 n)
  show ?case
  proof (cases "n < 10")
    case True
    then show ?thesis
      by (subst str_nat.simps) (simp add: nat_of_str_def digit_val_digit_char)
  next
    case False
    with 1 have "nat_of_str (str_nat (n div 10)) = n div 10" by simp
    with False show ?thesis
      by (subst str_nat.simps) (simp add: nat_of_str_snoc digit_val_digit_char)
  qed
qed

lemma nat_of_str_zeros: "nat_of_str (replicate k CHR ''0'' @ cs) = nat_of_str cs"
proof -
  have "foldl (\<lambda>a c. 10 * a + digit_val c) 0 (replicate k CHR ''0'') = 0"
    by (induction k) (simp_all add: digit_val_def)
  then show ?thesis by (simp add: nat_of_str_def)
qed

lemma nat_of_str_format_04d: "nat_of_str (format_04d i) = i"
  by (simp add: format_04d_def nat_of_str_zeros nat_of_str_str_nat)

lemma frame_filename_inj: "frame_filename i = frame_filename j \<Longrightarrow> i = j"
proof -
  assume "frame_filename i = frame_filename j"
  then have "format_04d i = format_04d j" by (simp add: frame_filename_def)
  then have "nat_of_str (format_04d i) = nat_of_str (format_04d j)" by simp
  then show ?thesis by (simp add: nat_of_str_format_04d)
qed

lemma join_relative:
  "b = [] \<or> hd b \<noteq> CHR ''/'' \<Longrightarrow>
   join a b = (if a = [] \<or> last a = CHR ''/'' then a else a @ ''/'') @ b"
  by (auto simp: join_def)

lemma frame_filename_relative: "frame_filename i \<noteq> [] \<and> hd (frame_filename i) \<noteq> CHR ''/''"
  by (simp add: frame_filename_def)

lemma join_frame_filename_inj:
  "join out (frame_filename i) = join out (frame_filename j) \<Longrightarrow> i = j"
  using frame_filename_relative [of i] frame_filename_relative [of j]
  by (simp add: join_relative frame_filename_inj)

lemma join_frame_filename_neq_single:
  "join out (frame_filename i) \<noteq> join out ''single_frame.png''"
  using frame_filename_relative [of i]
  by (simp add: join_relative) (simp add: frame_filename_def)

section \<open>The encoder, slices and the loop\<close>

lemma normalize_frame_dtype:
  "normalize_frame f = Inr g \<Longrightarrow> dtype g = UInt8 \<and> shape g = shape f"
  by (auto simp: normalize_frame_def Let_def split: if_splits)

lemma normalize_frame_ok:
  "dtype f = UInt8 \<or> data f \<noteq> [] \<Longrightarrow> \<exists>g. normalize_frame f = Inr g"
  by (auto simp: normalize_frame_def Let_def astype_float64_def)

lemma normalize_frame_empty:
  "dtype f \<noteq> UInt8 \<Longrightarrow> data f = [] \<Longrightarrow> normalize_frame f = Inl ValueError"
  by (simp add: normalize_frame_def Let_def astype_float64_def)

lemma fromarray_L:
  "ndim g = 2 \<Longrightarrow>
   fromarray g (Some ''L'') =
     Inr \<lparr>mode = ''L'', width = shape g ! 1, height = shape g ! 0, pixels = data g\<rparr>"
  by (simp add: fromarray_def ndmax_def)

lemma fromarray_channels:
  assumes "ndim g = 3" "last (shape g) \<in> {2, 3, 4}"
  shows "\<exists>m. fromarray g None =
     Inr \<lparr>mode = m, width = shape g ! 1, height = shape g ! 0, pixels = data g\<rparr>"
proof -
  from assms(1) obtain a b c where s: "shape g = [a, b, c]"
    unfolding ndim_def by (auto simp: numeral_3_eq_3 length_Suc_conv)
  with assms(2) show ?thesis
    by (auto simp: fromarray_def typemap_uint8_def ndmax_def ndim_def)
qed

lemma fromarray_bad_channels:
  assumes "ndim g = 3" "last (shape g) \<notin> {2, 3, 4}"
  shows "fromarray g None = Inl TypeError"
proof -
  from assms(1) obtain a b c where s: "shape g = [a, b, c]"
    unfolding ndim_def by (auto simp: numeral_3_eq_3 length_Suc_conv)
  with assms(2) show ?thesis
    by (auto simp: fromarray_def typemap_uint8_def ndmax_def ndim_def)
qed

lemma index0_shape: "shape (index0 a i) = tl (shape a)" "dtype (index0 a i) = dtype a"
  by (simp_all add: index0_def Let_def)

lemma index0_ndim: "ndim (index0 a i) = ndim a - 1"
  by (simp add: ndim_def index0_shape)

lemma for_range_ok:
  assumes "\<And>i s. i \<in> set js \<Longrightarrow> body i s = (None, upd i s)"
  shows "for_range body js s = (None, fold upd js s)"
  using assms by (induction js arbitrary: s) simp_all

lemma prod_list_pos: "0 \<notin> set ns \<Longrightarrow> 0 < (prod_list ns :: nat)"
  by (induction ns) auto

lemma index0_length:
  assumes "wf_ndarray a" "shape a \<noteq> []" "i < hd (shape a)"
  shows "length (data (index0 a i)) = prod_list (tl (shape a))"
proof -
  define m where "m = prod_list (tl (shape a))"
  from assms(2) have "prod_list (shape a) = hd (shape a) * m"
    by (cases "shape a") (simp_all add: m_def)
  with assms(1) have len: "length (data a) = hd (shape a) * m" by (simp add: wf_ndarray_def)
  from assms(3) have "i + 1 \<le> hd (shape a)" by simp
  then have "(i + 1) * m \<le> hd (shape a) * m" by (rule mult_le_mono1)
  then have "m \<le> hd (shape a) * m - i * m" by simp
  with len show ?thesis by (simp add: index0_def Let_def m_def [symmetric])
qed

lemma index0_nonempty:
  assumes "wf_ndarray a" "shape a \<noteq> []" "i < hd (shape a)" "0 \<notin> set (tl (shape a))"
  shows "data (index0 a i) \<noteq> []"
proof -
  from index0_length [OF assms(1-3)] prod_list_pos [OF assms(4)]
  have "0 < length (data (index0 a i))" by simp
  then show ?thesis by simp
qed

lemma fold_save_dirs:
  "dirs (fold (\<lambda>i s. s\<lparr>files := (files s)(path i \<mapsto> img i)\<rparr>) js s) = dirs s"
  by (induction js arbitrary: s) simp_all

lemma fold_save_stdout:
  "stdout (fold (\<lambda>i s. s\<lparr>files := (files s)(path i \<mapsto> img i)\<rparr>) js s) = stdout s"
  by (induction js arbitrary: s) simp_all

lemma fold_save_other:
  "p \<notin> path ` set js \<Longrightarrow>
   files (fold (\<lambda>i s. s\<lparr>files := (files s)(path i \<mapsto> img i)\<rparr>) js s) p = files s p"
  by (induction js arbitrary: s) simp_all

lemma fold_save_written:
  "inj_on path (set js) \<Longrightarrow> i \<in> set js \<Longrightarrow>
   files (fold (\<lambda>i s. s\<lparr>files := (files s)(path i \<mapsto> img i)\<rparr>) js s) (path i) = Some (img i)"
proof (induction js arbitrary: s)
  case Nil
  then show ?case by simp
next
  case (Cons j js)
  from Cons.prems(1) have inj: "inj_on path (set js)" by (simp add: inj_on_def)
  show ?case
  proof (cases "i \<in> set js")
    case True
    with Cons.IH [OF inj] show ?thesis by simp
  next
    case False
    with Cons.prems(2) have ij: "i = j" by simp
    have "path j \<notin> path ` set js"
    proof
      assume "path j \<in> path ` set js"
      then obtain k where k: "k \<in> set js" "path j = path k" by auto
      with Cons.prems(1) have "j = k" by (auto simp: inj_on_def)
      with k(1) False ij show False by simp
    qed
    then have "files (fold (\<lambda>i s. s\<lparr>files := (files s)(path i \<mapsto> img i)\<rparr>) js
                 (s\<lparr>files := (files s)(path j \<mapsto> img j)\<rparr>)) (path j) =
               files (s\<lparr>files := (files s)(path j \<mapsto> img j)\<rparr>) (path j)"
      by (rule fold_save_other)
    also have "\<dots> = Some (img j)" by simp
    finally show ?thesis by (simp only: ij fold_simps o_apply)
  qed
qed

lemma save_frame_ok:
  "save_error w (join out (frame_filename i)) = None \<Longrightarrow>
   save_frame w out i im s = (None, s\<lparr>files := (files s)(join out (frame_filename i) \<mapsto> im)\<rparr>)"
  by (simp add: save_frame_def save_def)

lemma process_frame_3d_gray:
  assumes "normalize_frame frame0 = Inr frame" "ndim frame0 = 2"
  shows "process_frame_3d w out i frame0 s =
           save_frame w out i
             \<lparr>mode = ''L'', width = shape frame ! 1, height = shape frame ! 0, pixels = data frame\<rparr> s"
proof -
  from normalize_frame_dtype [OF assms(1)] assms(2) have "ndim frame = 2"
    by (simp add: ndim_def)
  with assms(1) show ?thesis by (simp add: process_frame_3d_def fromarray_L)
qed

lemma frames_loop:
  assumes body: "\<And>i s. i < N \<Longrightarrow>
     body i s = (None, s\<lparr>files := (files s)(join out (frame_filename i) \<mapsto> img i)\<rparr>)"
  shows "\<exists>s'. for_range body [0..<N] s = (None, s') \<and> dirs s' = dirs s \<and> stdout s' = stdout s \<and>
           (\<forall>i<N. files s' (join out (frame_filename i)) = Some (img i)) \<and>
           (\<forall>p. p \<notin> (\<lambda>i. join out (frame_filename i)) ` {..<N} \<longrightarrow> files s' p = files s p)"
proof -
  let ?path = "\<lambda>i. join out (frame_filename i)"
  let ?upd = "\<lambda>i s. s\<lparr>files := (files s)(?path i \<mapsto> img i)\<rparr>"
  have run: "for_range body [0..<N] s = (None, fold ?upd [0..<N] s)"
    by (rule for_range_ok) (simp add: body)
  have inj: "inj_on ?path (set [0..<N])"
    by (auto simp: inj_on_def dest: join_frame_filename_inj)
  have w: "files (fold ?upd [0..<N] s) (?path i) = Some (img i)" if "i < N" for i
    using fold_save_written [of ?path "[0..<N]" i img s] inj that by simp
  have o: "files (fold ?upd [0..<N] s) p = files s p" if "p \<notin> ?path ` {..<N}" for p
    using fold_save_other [of p ?path "[0..<N]" img s] that by (simp add: lessThan_atLeast0)
  show ?thesis
    using run w o fold_save_dirs [of ?path img "[0..<N]" s] fold_save_stdout [of ?path img "[0..<N]" s]
    by blast
qed

lemma exists_print [simp]: "exists (print m s) p = exists s p"
  by (simp add: exists_def print_def)

lemma files_print [simp]: "files (print m s) = files s"
  by (simp add: print_def)

lemma dirs_print [simp]: "dirs (print m s) = dirs s"
  by (simp add: print_def)

lemma stdout_print [simp]: "stdout (print m s) = stdout s @ [m]"
  by (simp add: print_def)

lemma try_body_pixel:
  assumes "dcmread w fp = Inr ds" "pixel_data_tag \<in> set (tags ds)" "pixel_array ds = Inr arr"
    and "exists s (specific_output_path w fp base) \<or>
         makedirs_error w (specific_output_path w fp base) = None"
  shows "try_body w fp base s =
           process_pixel_array w fp base (specific_output_folder_name fp)
             (specific_output_path w fp base) arr
             (if exists s (specific_output_path w fp base) then s
              else s\<lparr>dirs := insert (specific_output_path w fp base) (dirs s)\<rparr>)"
  using assms by (auto simp: try_body_def Let_def makedirs_def)

lemma extract_no_exn:
  "try_body w fp base (print (Processing (basename fp)) s) = (None, s') \<Longrightarrow>
   extract_frames_from_dicom w fp base s = (None, s')"
  by (simp add: extract_frames_from_dicom_def)


section \<open>The rank-2 branch\<close>


lemma example_out:
  "specific_output_path (example_world arr) ''scans/a.dcm'' ''extracted_images'' =
     ''/srv/extracted_images/a_extracted''"
  by (simp add: specific_output_path_def specific_output_folder_name_def example_world_def
      join_def basename_def splitext_def Let_def)


section \<open>The rank-3 branch\<close>

lemma slice_normalizes:
  assumes "wf_ndarray arr" "shape arr \<noteq> []" "0 \<notin> set (tl (shape arr))" "i < hd (shape arr)"
  shows "\<exists>frame. normalize_frame (index0 arr i) = Inr frame"
  using index0_nonempty [OF assms(1,2,4,3)] by (intro normalize_frame_ok) simp

lemma rank3_loop:
  assumes nd: "ndim arr = 3" and wf: "wf_ndarray arr" and nz: "0 \<notin> set (tl (shape arr))"
    and sv: "\<forall>i < hd (shape arr). save_error w (join out (frame_filename i)) = None"
  shows "\<exists>s'. for_range (\<lambda>i. process_frame_3d w out i (index0 arr i)) [0..<hd (shape arr)] s =
             (None, s') \<and>
           dirs s' = dirs s \<and> stdout s' = stdout s \<and>
           (\<forall>i < hd (shape arr). \<exists>frame. normalize_frame (index0 arr i) = Inr frame \<and>
              files s' (join out (frame_filename i)) =
                Some \<lparr>mode = ''L'', width = shape frame ! 1, height = shape frame ! 0,
                      pixels = data frame\<rparr>) \<and>
           (\<forall>p. p \<notin> (\<lambda>i. join out (frame_filename i)) ` {..<hd (shape arr)} \<longrightarrow>
              files s' p = files s p)"
proof -
  let ?N = "hd (shape arr)"
  from nd have ne: "shape arr \<noteq> []" by (auto simp: ndim_def)
  define fr where "fr i = projr (normalize_frame (index0 arr i))" for i
  define img where "img i = \<lparr>mode = ''L'', width = shape (fr i) ! 1, height = shape (fr i) ! 0,
      pixels = data (fr i)\<rparr>" for i
  have norm: "normalize_frame (index0 arr i) = Inr (fr i)" if "i < ?N" for i
    using slice_normalizes [OF wf ne nz that] by (auto simp: fr_def)
  have body: "process_frame_3d w out i (index0 arr i) t =
      (None, t\<lparr>files := (files t)(join out (frame_filename i) \<mapsto> img i)\<rparr>)"
    if "i < ?N" for i t
  proof -
    have "ndim (index0 arr i) = 2" using nd by (simp add: index0_ndim)
    from process_frame_3d_gray [OF norm [OF that] this] sv that
    show ?thesis by (simp add: save_frame_ok img_def)
  qed
  from frames_loop [of ?N "\<lambda>i. process_frame_3d w out i (index0 arr i)" out img s, OF body]
  obtain s' where s': "for_range (\<lambda>i. process_frame_3d w out i (index0 arr i)) [0..<?N] s = (None, s')"
    "dirs s' = dirs s" "stdout s' = stdout s"
    "\<forall>i<?N. files s' (join out (frame_filename i)) = Some (img i)"
    "\<forall>p. p \<notin> (\<lambda>i. join out (frame_filename i)) ` {..<?N} \<longrightarrow> files s' p = files s p"
    by blast
  have "\<forall>i < ?N. \<exists>frame. normalize_frame (index0 arr i) = Inr frame \<and>
              files s' (join out (frame_filename i)) =
                Some \<lparr>mode = ''L'', width = shape frame ! 1, height = shape frame ! 0,
                      pixels = data frame\<rparr>"
    using s'(4) norm by (auto simp: img_def)
  with s'(1,2,3,5) show ?thesis by blast
qed

lemma frame_paths_card:
  "card ((\<lambda>i. join out (frame_filename i)) ` {..<N}) = N"
proof -
  have "inj_on (\<lambda>i. join out (frame_filename i)) {..<N}"
    by (auto simp: inj_on_def dest: join_frame_filename_inj)
  then show ?thesis by (simp add: card_image)
qed


lemma normalize_frame_int:
  assumes dt: "dtype frame \<noteq> UInt8" and wf: "wf_ndarray frame" and ne: "data frame \<noteq> []"
    and b32: "dtype_bits (dtype frame) \<le> 32"
  shows "normalize_frame frame =
     Inr \<lparr>dtype = UInt8, shape = shape frame,
          data = (if Max (set (data frame)) \<noteq> Min (set (data frame))
                  then map (\<lambda>v. 255 * (v - Min (set (data frame))) div
                                 (Max (set (data frame)) - Min (set (data frame)))) (data frame)
                  else replicate (length (data frame)) 0)\<rparr>"
proof -
  define lo where "lo = Min (set (data frame))"
  define hi where "hi = Max (set (data frame))"
  define xs where "xs = astype_float64 (data frame)"
  note N = normalize_32 [OF dt wf ne b32 lo_def hi_def]
  have mn: "of_int lo = Min (set xs)" and mx: "of_int hi = Max (set xs)"
    using N(2) N(3) by (simp_all add: xs_def)
  show ?thesis
  proof (cases "hi = lo")
    case True
    then have "Max (set (astype_float64 (data frame))) = Min (set (astype_float64 (data frame)))"
      using N(2) N(3) by simp
    from normalize_uniform [OF dt ne this] True show ?thesis
      by (simp add: lo_def hi_def)
  next
    case False
    then have neq: "(of_int hi :: rat) \<noteq> of_int lo" by simp
    from normalize_nonuniform(1) [OF dt wf ne xs_def mn mx neq]
    have "normalize_frame frame =
           Inr \<lparr>dtype = UInt8, shape = shape frame,
                data = map (\<lambda>x. \<lfloor>rescale (of_int lo) (of_int hi) x\<rfloor>) xs\<rparr>" .
    with N(4) [OF False] False show ?thesis
      by (simp add: xs_def lo_def [symmetric] hi_def [symmetric])
  qed
qed

lemma example_stack_frames:
  "normalize_frame (index0 example_stack 0) =
     Inr \<lparr>dtype = UInt8, shape = [2, 2], data = [0, 0, 0, 0]\<rparr>"
  "normalize_frame (index0 example_stack 1) =
     Inr \<lparr>dtype = UInt8, shape = [2, 2], data = [0, 2, 127, 255]\<rparr>"
proof -
  have 0: "index0 example_stack 0 = \<lparr>dtype = UInt16, shape = [2, 2], data = [100, 100, 100, 100]\<rparr>"
    by (simp add: index0_def example_stack_def)
  have 1: "index0 example_stack 1 = \<lparr>dtype = UInt16, shape = [2, 2], data = [0, 10, 500, 1000]\<rparr>"
    by (simp add: index0_def example_stack_def)
  show "normalize_frame (index0 example_stack 0) =
     Inr \<lparr>dtype = UInt8, shape = [2, 2], data = [0, 0, 0, 0]\<rparr>"
    unfolding 0
    by (subst normalize_frame_int)
       (simp_all add: wf_ndarray_def dtype_lo_def dtype_hi_def)
  show "normalize_frame (index0 example_stack 1) =
     Inr \<lparr>dtype = UInt8, shape = [2, 2], data = [0, 2, 127, 255]\<rparr>"
    unfolding 1
    by (subst normalize_frame_int)
       (simp_all add: wf_ndarray_def dtype_lo_def dtype_hi_def)
qed

lemma example_paths:
  "join ''/srv/extracted_images/a_extracted'' (frame_filename 0) =
     ''/srv/extracted_images/a_extracted/frame_0000.png''"
  "join ''/srv/extracted_images/a_extracted'' (frame_filename 1) =
     ''/srv/extracted_images/a_extracted/frame_0001.png''"
  by (simp_all add: join_def frame_filename_def format_04d_def str_nat.simps digit_char_def
      numeral_3_eq_3)



lemma save_frame_not_warning:
  "save_frame w out i im s \<noteq> (None, print m s)"
proof (cases "save_error w (join out (frame_filename i))")
  case None
  have "stdout (s\<lparr>files := (files s)(join out (frame_filename i) \<mapsto> im)\<rparr>) \<noteq> stdout (print m s)"
    by simp
  then have "s\<lparr>files := (files s)(join out (frame_filename i) \<mapsto> im)\<rparr> \<noteq> print m s"
    by metis
  with None show ?thesis by (simp add: save_frame_def save_def)
next
  case (Some e)
  then show ?thesis by (simp add: save_frame_def save_def)
qed

text \<open>
  C9. In the rank-3 branch every frame \<^verbatim>\<open>pixel_array[i]\<close> has rank 2, and so has the
  normalized frame: the loop body is the grayscale path, it builds the image of mode
  \<^verbatim>\<open>L\<close> and hands it to the write, and it never is the skip with its warning. Hence the
  colour case and the skip cannot be reached from this branch, no frame is classified as
  anomalous, and, where the frames have samples and the writes succeed, the loop ends
  without an exception, prints nothing and has written a grayscale image for each of the
  \<open>N\<close> frames.
\<close>

theorem rank3_slices_grayscale:
  assumes "ndim arr = 3"
  shows "ndim (index0 arr i) = 2 \<and>
     (\<forall>frame. normalize_frame (index0 arr i) = Inr frame \<longrightarrow>
        ndim frame = 2 \<and>
        process_frame_3d w out i (index0 arr i) s =
          save_frame w out i
            \<lparr>mode = ''L'', width = shape frame ! 1, height = shape frame ! 0, pixels = data frame\<rparr> s \<and>
        process_frame_3d w out i (index0 arr i) s \<noteq> (None, print (WarnFrameDims (shape frame) i) s)) \<and>
     (wf_ndarray arr \<and> 0 \<notin> set (tl (shape arr)) \<and>
      (\<forall>j < hd (shape arr). save_error w (join out (frame_filename j)) = None) \<longrightarrow>
        (\<exists>s'. for_range (\<lambda>j. process_frame_3d w out j (index0 arr j)) [0..<hd (shape arr)] s =
                 (None, s') \<and>
              stdout s' = stdout s \<and>
              (\<forall>j < hd (shape arr). \<exists>im. files s' (join out (frame_filename j)) = Some im \<and>
                 mode im = ''L'')))"
proof -
  have 1: "ndim (index0 arr i) = 2" using assms by (simp add: index0_ndim)
  have 2: "ndim frame = 2 \<and>
        process_frame_3d w out i (index0 arr i) s =
          save_frame w out i
            \<lparr>mode = ''L'', width = shape frame ! 1, height = shape frame ! 0, pixels = data frame\<rparr> s \<and>
        process_frame_3d w out i (index0 arr i) s \<noteq> (None, print (WarnFrameDims (shape frame) i) s)"
    if n: "normalize_frame (index0 arr i) = Inr frame" for frame
  proof -
    from normalize_frame_dtype [OF n] 1 have "ndim frame = 2" by (simp add: ndim_def)
    moreover note g = process_frame_3d_gray [OF n 1, of w out i s]
    moreover have "process_frame_3d w out i (index0 arr i) s \<noteq>
        (None, print (WarnFrameDims (shape frame) i) s)"
      unfolding g by (rule save_frame_not_warning)
    ultimately show ?thesis by blast
  qed
  have 3: "\<exists>s'. for_range (\<lambda>j. process_frame_3d w out j (index0 arr j)) [0..<hd (shape arr)] s =
                 (None, s') \<and>
              stdout s' = stdout s \<and>
              (\<forall>j < hd (shape arr). \<exists>im. files s' (join out (frame_filename j)) = Some im \<and>
                 mode im = ''L'')"
    if h: "wf_ndarray arr \<and> 0 \<notin> set (tl (shape arr)) \<and>
      (\<forall>j < hd (shape arr). save_error w (join out (frame_filename j)) = None)"
  proof -
    from h have a: "wf_ndarray arr" and b: "0 \<notin> set (tl (shape arr))"
      and c: "\<forall>j < hd (shape arr). save_error w (join out (frame_filename j)) = None" by simp_all
    from rank3_loop [OF assms a b c, of s] obtain s' where
      r: "for_range (\<lambda>j. process_frame_3d w out j (index0 arr j)) [0..<hd (shape arr)] s = (None, s')"
      and o: "stdout s' = stdout s"
      and f: "\<forall>i < hd (shape arr). \<exists>frame. normalize_frame (index0 arr i) = Inr frame \<and>
              files s' (join out (frame_filename i)) =
                Some \<lparr>mode = ''L'', width = shape frame ! 1, height = shape frame ! 0,
                      pixels = data frame\<rparr>"
      by blast
    from f have "\<forall>j < hd (shape arr). \<exists>im. files s' (join out (frame_filename j)) = Some im \<and>
                 mode im = ''L''" by fastforce
    with r o show ?thesis by blast
  qed
  from 1 2 3 show ?thesis by blast
qed

theorem rank3_slices_grayscale_witness:
  "ndim example_stack = 3 \<and> ndim (index0 example_stack 1) = 2 \<and>
   process_frame_3d (example_world example_stack) ''/srv/extracted_images/a_extracted'' 1
       (index0 example_stack 1) empty_state =
     (None, empty_state\<lparr>files := [''/srv/extracted_images/a_extracted/frame_0001.png'' \<mapsto>
        \<lparr>mode = ''L'', width = 2, height = 2, pixels = [0, 2, 127, 255]\<rparr>]\<rparr>)"
proof -
  have h: "ndim example_stack = 3" by (simp add: ndim_def example_stack_def)
  note T = rank3_slices_grayscale [OF h, of 1 "example_world example_stack"
      "''/srv/extracted_images/a_extracted''" empty_state]
  from T have a: "ndim (index0 example_stack 1) = 2" by blast
  from T example_stack_frames(2)
  have "process_frame_3d (example_world example_stack) ''/srv/extracted_images/a_extracted'' 1
       (index0 example_stack 1) empty_state =
     save_frame (example_world example_stack) ''/srv/extracted_images/a_extracted'' 1
       \<lparr>mode = ''L'', width = 2, height = 2, pixels = [0, 2, 127, 255]\<rparr> empty_state"
    by fastforce
  also have "\<dots> = (None, empty_state\<lparr>files := [''/srv/extracted_images/a_extracted/frame_0001.png'' \<mapsto>
        \<lparr>mode = ''L'', width = 2, height = 2, pixels = [0, 2, 127, 255]\<rparr>]\<rparr>)"
    unfolding save_frame_def Let_def example_paths
    by (simp add: save_def example_world_def empty_state_def)
  finally show ?thesis using h a by simp
qed

section \<open>Files without pixel data\<close>



section \<open>The output directory and arrays of another rank\<close>








lemma extract_fst: "fst (extract_frames_from_dicom w fp base s) = None"
  by (cases "try_body w fp base (print (Processing (basename fp)) s)")
     (auto simp: extract_frames_from_dicom_def split: option.splits exn.splits)

lemma try_body_makedirs_fails:
  assumes "dcmread w fp = Inr ds" "pixel_data_tag \<in> set (tags ds)" "pixel_array ds = Inr arr"
    and "\<not> exists s (specific_output_path w fp base)"
    and "makedirs_error w (specific_output_path w fp base) = Some e"
  shows "try_body w fp base s = (Some e, s)"
  using assms by (simp add: try_body_def Let_def makedirs_def)

lemma process_pixel_array_other_rank:
  assumes "ndim arr \<noteq> 2" "ndim arr \<noteq> 3" "ndim arr \<noteq> 4"
  shows "process_pixel_array w fp base name out arr s =
           (None, print (WarnArrayDims (ndim arr) (basename fp)) s)"
  using assms by (simp add: process_pixel_array_def)

text \<open>
  C8. A file that decodes to a pixel array whose rank is none of 2, 3 and 4 yields no
  output file: the function returns normally and the files afterwards are the files
  before, whatever the file system does. Where the output directory exists or can be
  made, what is printed is the name of the file and the warning that gives the rank.
\<close>

theorem unexpected_rank:
  assumes "dcmread w fp = Inr ds" and "pixel_data_tag \<in> set (tags ds)"
    and "pixel_array ds = Inr arr"
    and "ndim arr \<noteq> 2" and "ndim arr \<noteq> 3" and "ndim arr \<noteq> 4"
  shows "fst (extract_frames_from_dicom w fp base s) = None \<and>
         files (snd (extract_frames_from_dicom w fp base s)) = files s \<and>
         (exists s (specific_output_path w fp base) \<or>
          makedirs_error w (specific_output_path w fp base) = None \<longrightarrow>
            stdout (snd (extract_frames_from_dicom w fp base s)) =
              stdout s @ [Processing (basename fp), WarnArrayDims (ndim arr) (basename fp)])"
proof -
  let ?out = "specific_output_path w fp base"
  let ?s0 = "print (Processing (basename fp)) s"
  show ?thesis
  proof (cases "exists s ?out \<or> makedirs_error w ?out = None")
    case True
    then have ex: "exists ?s0 ?out \<or> makedirs_error w ?out = None" by simp
    define s1 where "s1 = (if exists ?s0 ?out then ?s0 else ?s0\<lparr>dirs := insert ?out (dirs ?s0)\<rparr>)"
    have tb: "try_body w fp base ?s0 =
        (None, print (WarnArrayDims (ndim arr) (basename fp)) s1)"
      unfolding s1_def
      by (simp only: try_body_pixel [OF assms(1-3) ex]
            process_pixel_array_other_rank [OF assms(4-6)])
    then have "extract_frames_from_dicom w fp base s =
        (None, print (WarnArrayDims (ndim arr) (basename fp)) s1)"
      by (rule extract_no_exn)
    then show ?thesis by (simp add: s1_def)
  next
    case False
    then obtain e where e: "makedirs_error w ?out = Some e" and ne: "\<not> exists ?s0 ?out"
      by auto
    from try_body_makedirs_fails [OF assms(1-3) ne e]
    have "try_body w fp base ?s0 = (Some e, ?s0)" .
    then have "files (snd (extract_frames_from_dicom w fp base s)) = files s"
      by (cases e) (simp_all add: extract_frames_from_dicom_def)
    with False show ?thesis by (auto simp: extract_fst)
  qed
qed


lemma example_decodes:
  "dcmread (example_world arr) ''scans/a.dcm'' =
     Inr \<lparr>tags = [pixel_data_tag], pixel_array = Inr arr\<rparr>"
  "makedirs_error (example_world arr) p = None"
  "save_error (example_world arr) p = None"
  by (simp_all add: example_world_def)

lemma example_basename: "basename ''scans/a.dcm'' = ''a.dcm''"
  by (simp add: basename_def)

theorem unexpected_rank_witness:
  "ndim example_vector \<noteq> 2 \<and> ndim example_vector \<noteq> 3 \<and> ndim example_vector \<noteq> 4 \<and>
   fst (extract_frames_from_dicom (example_world example_vector) ''scans/a.dcm''
      ''extracted_images'' empty_state) = None \<and>
   files (snd (extract_frames_from_dicom (example_world example_vector) ''scans/a.dcm''
      ''extracted_images'' empty_state)) = Map.empty \<and>
   stdout (snd (extract_frames_from_dicom (example_world example_vector) ''scans/a.dcm''
      ''extracted_images'' empty_state)) =
     [Processing ''a.dcm'', WarnArrayDims 1 ''a.dcm'']"
proof -
  let ?ds = "\<lparr>tags = [pixel_data_tag], pixel_array = Inr example_vector\<rparr>"
  have n: "ndim example_vector = 1" by (simp add: ndim_def example_vector_def)
  have h2: "pixel_data_tag \<in> set (tags ?ds)" by simp
  have h3: "pixel_array ?ds = Inr example_vector" by simp
  have h4: "ndim example_vector \<noteq> 2" "ndim example_vector \<noteq> 3" "ndim example_vector \<noteq> 4"
    by (simp_all add: n)
  from unexpected_rank [OF example_decodes(1) h2 h3 h4, of "''extracted_images''" empty_state]
  show ?thesis
    by (simp add: n example_decodes example_basename empty_state_def)
qed


section \<open>The rank-4 branch\<close>

lemma process_frame_4d_cases:
  "(\<exists>e. process_frame_4d w out i frame0 t = (Some e, t)) \<or>
   (\<exists>im. process_frame_4d w out i frame0 t =
            (None, t\<lparr>files := (files t)(join out (frame_filename i) \<mapsto> im)\<rparr>))"
  by (auto simp: process_frame_4d_def save_frame_def save_def Let_def
      split: sum.splits option.splits)

lemma slice_last:
  assumes "ndim arr = 4"
  shows "ndim (index0 arr i) = 3" "last (shape (index0 arr i)) = last (shape arr)"
proof -
  show "ndim (index0 arr i) = 3" using assms by (simp add: index0_ndim)
  from assms obtain a b c d where "shape arr = [a, b, c, d]"
    unfolding ndim_def by (auto simp: numeral_eq_Suc length_Suc_conv)
  then show "last (shape (index0 arr i)) = last (shape arr)" by (simp add: index0_shape)
qed

lemma rank4_loop:
  assumes nd: "ndim arr = 4" and wf: "wf_ndarray arr" and nz: "0 \<notin> set (tl (shape arr))"
    and ch: "last (shape arr) \<in> {2, 3, 4}"
    and sv: "\<forall>i < hd (shape arr). save_error w (join out (frame_filename i)) = None"
  shows "\<exists>s'. for_range (\<lambda>i. process_frame_4d w out i (index0 arr i)) [0..<hd (shape arr)] s =
             (None, s') \<and>
           dirs s' = dirs s \<and> stdout s' = stdout s \<and>
           (\<forall>i < hd (shape arr). \<exists>frame im. normalize_frame (index0 arr i) = Inr frame \<and>
              fromarray frame None = Inr im \<and> pixels im = data frame \<and>
              files s' (join out (frame_filename i)) = Some im) \<and>
           (\<forall>p. p \<notin> (\<lambda>i. join out (frame_filename i)) ` {..<hd (shape arr)} \<longrightarrow>
              files s' p = files s p)"
proof -
  let ?N = "hd (shape arr)"
  from nd have ne: "shape arr \<noteq> []" by (auto simp: ndim_def)
  define fr where "fr i = projr (normalize_frame (index0 arr i))" for i
  define img where "img i = projr (fromarray (fr i) None)" for i
  have norm: "normalize_frame (index0 arr i) = Inr (fr i)" if "i < ?N" for i
    using slice_normalizes [OF wf ne nz that] by (auto simp: fr_def)
  have enc: "fromarray (fr i) None = Inr (img i) \<and> pixels (img i) = data (fr i)" if "i < ?N" for i
  proof -
    from normalize_frame_dtype [OF norm [OF that]] slice_last [OF nd, of i] ch
    have "ndim (fr i) = 3" "last (shape (fr i)) \<in> {2, 3, 4}" by (simp_all add: ndim_def)
    from fromarray_channels [OF this] show ?thesis by (auto simp: img_def)
  qed
  have body: "process_frame_4d w out i (index0 arr i) t =
      (None, t\<lparr>files := (files t)(join out (frame_filename i) \<mapsto> img i)\<rparr>)"
    if "i < ?N" for i t
    using norm [OF that] enc [OF that] sv that
    by (simp add: process_frame_4d_def save_frame_ok)
  from frames_loop [of ?N "\<lambda>i. process_frame_4d w out i (index0 arr i)" out img s, OF body]
  obtain s' where s': "for_range (\<lambda>i. process_frame_4d w out i (index0 arr i)) [0..<?N] s = (None, s')"
    "dirs s' = dirs s" "stdout s' = stdout s"
    "\<forall>i<?N. files s' (join out (frame_filename i)) = Some (img i)"
    "\<forall>p. p \<notin> (\<lambda>i. join out (frame_filename i)) ` {..<?N} \<longrightarrow> files s' p = files s p"
    by blast
  have "\<forall>i < ?N. \<exists>frame im. normalize_frame (index0 arr i) = Inr frame \<and>
              fromarray frame None = Inr im \<and> pixels im = data frame \<and>
              files s' (join out (frame_filename i)) = Some im"
    using s'(4) norm enc by blast
  with s'(1,2,3,5) show ?thesis by blast
qed

lemma rank4_loop_rejected:
  assumes nd: "ndim arr = 4" and wf: "wf_ndarray arr" and nz: "0 \<notin> set (tl (shape arr))"
    and ch: "last (shape arr) \<notin> {2, 3, 4}" and pos: "0 < hd (shape arr)"
  shows "for_range (\<lambda>i. process_frame_4d w out i (index0 arr i)) [0..<hd (shape arr)] s =
           (Some TypeError, s)"
proof -
  from nd have ne: "shape arr \<noteq> []" by (auto simp: ndim_def)
  from slice_normalizes [OF wf ne nz pos] obtain frame where
    n: "normalize_frame (index0 arr 0) = Inr frame" by blast
  from normalize_frame_dtype [OF n] slice_last [OF nd, of 0] ch
  have "ndim frame = 3" "last (shape frame) \<notin> {2, 3, 4}" by (simp_all add: ndim_def)
  from fromarray_bad_channels [OF this] n
  have b: "process_frame_4d w out 0 (index0 arr 0) s = (Some TypeError, s)"
    by (simp add: process_frame_4d_def)
  from pos have "[0..<hd (shape arr)] = 0 # [1..<hd (shape arr)]"
    by (simp add: upt_rec)
  with b show ?thesis by simp
qed

text \<open>
  C5, as the code has it. A file that decodes to a pixel array of rank 4 with \<open>N\<close> frames
  whose trailing axis, the channels, has size 2, 3 or 4 yields exactly \<open>N\<close> output
  files \<^verbatim>\<open>frame_0000.png\<close> and so on, where the frames have samples and the file system
  lets the directory exist and the files be written: every frame's file is present with
  the image that the encoder builds from the normalized frame, every other path is as
  before, and the \<open>N\<close> names are distinct. For any other size of the trailing axis the
  encoder raises on the first frame; the exception is caught for the file as a whole,
  logged as unexpected, and no file is written. The loop body has no skip: it raises or
  it writes the file of its frame.
\<close>

theorem rank4_frames:
  assumes "dcmread w fp = Inr ds" and "pixel_data_tag \<in> set (tags ds)"
    and "pixel_array ds = Inr arr" and "ndim arr = 4"
    and "wf_ndarray arr" and "0 \<notin> set (tl (shape arr))"
    and "exists s (specific_output_path w fp base) \<or>
         makedirs_error w (specific_output_path w fp base) = None"
    and "\<forall>i < hd (shape arr).
           save_error w (join (specific_output_path w fp base) (frame_filename i)) = None"
  shows "(last (shape arr) \<in> {2, 3, 4} \<longrightarrow>
           (\<exists>s'. extract_frames_from_dicom w fp base s = (None, s') \<and>
              (\<forall>i < hd (shape arr). \<exists>frame im. normalize_frame (index0 arr i) = Inr frame \<and>
                 fromarray frame None = Inr im \<and> pixels im = data frame \<and>
                 files s' (join (specific_output_path w fp base) (frame_filename i)) = Some im) \<and>
              (\<forall>p. p \<notin> (\<lambda>i. join (specific_output_path w fp base) (frame_filename i)) `
                         {..<hd (shape arr)} \<longrightarrow> files s' p = files s p)) \<and>
           card ((\<lambda>i. join (specific_output_path w fp base) (frame_filename i)) `
                   {..<hd (shape arr)}) = hd (shape arr)) \<and>
         (last (shape arr) \<notin> {2, 3, 4} \<and> 0 < hd (shape arr) \<longrightarrow>
            fst (extract_frames_from_dicom w fp base s) = None \<and>
            files (snd (extract_frames_from_dicom w fp base s)) = files s \<and>
            last (stdout (snd (extract_frames_from_dicom w fp base s))) =
              ErrUnexpected (basename fp) TypeError) \<and>
         (\<forall>i frame0 t.
            (\<exists>e. process_frame_4d w (specific_output_path w fp base) i frame0 t = (Some e, t)) \<or>
            (\<exists>im. process_frame_4d w (specific_output_path w fp base) i frame0 t =
               (None, t\<lparr>files := (files t)
                  (join (specific_output_path w fp base) (frame_filename i) \<mapsto> im)\<rparr>)))"
proof -
  let ?out = "specific_output_path w fp base"
  let ?N = "hd (shape arr)"
  let ?s0 = "print (Processing (basename fp)) s"
  from assms(7) have ex: "exists ?s0 ?out \<or> makedirs_error w ?out = None" by simp
  define s1 where "s1 = (if exists ?s0 ?out then ?s0 else ?s0\<lparr>dirs := insert ?out (dirs ?s0)\<rparr>)"
  have f1: "files s1 = files s" by (simp add: s1_def)
  have tb: "try_body w fp base ?s0 =
      process_pixel_array w fp base (specific_output_folder_name fp) ?out arr s1"
    unfolding s1_def by (rule try_body_pixel [OF assms(1-3) ex])
  have n3: "ndim arr \<noteq> 3" using assms(4) by simp
  have A: "(\<exists>s'. extract_frames_from_dicom w fp base s = (None, s') \<and>
              (\<forall>i < ?N. \<exists>frame im. normalize_frame (index0 arr i) = Inr frame \<and>
                 fromarray frame None = Inr im \<and> pixels im = data frame \<and>
                 files s' (join ?out (frame_filename i)) = Some im) \<and>
              (\<forall>p. p \<notin> (\<lambda>i. join ?out (frame_filename i)) ` {..<?N} \<longrightarrow>
                 files s' p = files s p)) \<and>
           card ((\<lambda>i. join ?out (frame_filename i)) ` {..<?N}) = ?N"
    if ch: "last (shape arr) \<in> {2, 3, 4}"
  proof -
    from rank4_loop [OF assms(4) assms(5) assms(6) ch assms(8),
        of "print (FoundFramesMultiChannel ?N) s1"]
    obtain s2 where s2:
      "for_range (\<lambda>i. process_frame_4d w ?out i (index0 arr i)) [0..<?N]
         (print (FoundFramesMultiChannel ?N) s1) = (None, s2)"
      "\<forall>i < ?N. \<exists>frame im. normalize_frame (index0 arr i) = Inr frame \<and>
          fromarray frame None = Inr im \<and> pixels im = data frame \<and>
          files s2 (join ?out (frame_filename i)) = Some im"
      "\<forall>p. p \<notin> (\<lambda>i. join ?out (frame_filename i)) ` {..<?N} \<longrightarrow>
          files s2 p = files (print (FoundFramesMultiChannel ?N) s1) p"
      by blast
    define s' where "s' = print (ExtractionComplete (basename fp)
        (join base (specific_output_folder_name fp))) s2"
    have "process_pixel_array w fp base (specific_output_folder_name fp) ?out arr s1 = (None, s')"
      using assms(4) n3 s2(1) by (simp add: process_pixel_array_def Let_def s'_def)
    with tb have 1: "extract_frames_from_dicom w fp base s = (None, s')"
      by (simp add: extract_no_exn)
    have 2: "\<forall>i < ?N. \<exists>frame im. normalize_frame (index0 arr i) = Inr frame \<and>
          fromarray frame None = Inr im \<and> pixels im = data frame \<and>
          files s' (join ?out (frame_filename i)) = Some im"
      using s2(2) by (simp add: s'_def)
    have 3: "\<forall>p. p \<notin> (\<lambda>i. join ?out (frame_filename i)) ` {..<?N} \<longrightarrow> files s' p = files s p"
      using s2(3) by (simp add: s'_def f1)
    from 1 2 3 frame_paths_card [of ?out ?N] show ?thesis by blast
  qed
  have B: "fst (extract_frames_from_dicom w fp base s) = None \<and>
            files (snd (extract_frames_from_dicom w fp base s)) = files s \<and>
            last (stdout (snd (extract_frames_from_dicom w fp base s))) =
              ErrUnexpected (basename fp) TypeError"
    if h: "last (shape arr) \<notin> {2, 3, 4} \<and> 0 < ?N"
  proof -
    from h have ch: "last (shape arr) \<notin> {2, 3, 4}" and pos: "0 < ?N" by simp_all
    from rank4_loop_rejected [OF assms(4) assms(5) assms(6) ch pos]
    have "process_pixel_array w fp base (specific_output_folder_name fp) ?out arr s1 =
        (Some TypeError, print (FoundFramesMultiChannel ?N) s1)"
      using assms(4) n3 by (simp add: process_pixel_array_def Let_def)
    with tb have "extract_frames_from_dicom w fp base s =
        (None, print (ErrUnexpected (basename fp) TypeError)
                 (print (FoundFramesMultiChannel ?N) s1))"
      by (simp add: extract_frames_from_dicom_def)
    then show ?thesis by (simp add: f1)
  qed
  from A B process_frame_4d_cases [of w ?out] show ?thesis by blast
qed

theorem rank4_frames_witness:
  "ndim example_color = 4 \<and> wf_ndarray example_color \<and> hd (shape example_color) = 2 \<and>
   last (shape example_color) \<in> {2, 3, 4} \<and>
   fst (extract_frames_from_dicom (example_world example_color) ''scans/a.dcm''
          ''extracted_images'' empty_state) = None \<and>
   files (snd (extract_frames_from_dicom (example_world example_color) ''scans/a.dcm''
          ''extracted_images'' empty_state))
     ''/srv/extracted_images/a_extracted/frame_0000.png'' =
     Some \<lparr>mode = ''RGB'', width = 1, height = 1, pixels = [1, 2, 3]\<rparr> \<and>
   files (snd (extract_frames_from_dicom (example_world example_color) ''scans/a.dcm''
          ''extracted_images'' empty_state))
     ''/srv/extracted_images/a_extracted/frame_0001.png'' =
     Some \<lparr>mode = ''RGB'', width = 1, height = 1, pixels = [4, 5, 6]\<rparr>"
proof -
  let ?w = "example_world example_color"
  let ?ds = "\<lparr>tags = [pixel_data_tag], pixel_array = Inr example_color\<rparr>"
  let ?out = "specific_output_path ?w ''scans/a.dcm'' ''extracted_images''"
  have out: "?out = ''/srv/extracted_images/a_extracted''" by (rule example_out)
  have h2: "pixel_data_tag \<in> set (tags ?ds)" by simp
  have h3: "pixel_array ?ds = Inr example_color" by simp
  have h4: "ndim example_color = 4" by (simp add: ndim_def example_color_def)
  have h5: "wf_ndarray example_color"
    by (simp add: wf_ndarray_def example_color_def dtype_lo_def dtype_hi_def)
  have h6: "0 \<notin> set (tl (shape example_color))" by (simp add: example_color_def)
  have h7: "exists empty_state ?out \<or> makedirs_error ?w ?out = None"
    by (simp add: example_decodes)
  have h8: "\<forall>i < hd (shape example_color). save_error ?w (join ?out (frame_filename i)) = None"
    by (simp add: example_decodes)
  have n: "hd (shape example_color) = 2" by (simp add: example_color_def)
  have ch: "last (shape example_color) \<in> {2, 3, 4}" by (simp add: example_color_def)
  note T = rank4_frames [OF example_decodes(1) h2 h3 h4 h5 h6 h7 h8]
  from T ch obtain s' where
    r: "extract_frames_from_dicom ?w ''scans/a.dcm'' ''extracted_images'' empty_state = (None, s')"
    and f: "\<forall>i < hd (shape example_color). \<exists>frame im.
        normalize_frame (index0 example_color i) = Inr frame \<and>
        fromarray frame None = Inr im \<and> pixels im = data frame \<and>
        files s' (join ?out (frame_filename i)) = Some im"
    by blast
  have e0: "normalize_frame (index0 example_color 0) =
      Inr \<lparr>dtype = UInt8, shape = [1, 1, 3], data = [1, 2, 3]\<rparr>"
    by (simp add: normalize_frame_def index0_def example_color_def)
  have e1: "normalize_frame (index0 example_color 1) =
      Inr \<lparr>dtype = UInt8, shape = [1, 1, 3], data = [4, 5, 6]\<rparr>"
    by (simp add: normalize_frame_def index0_def example_color_def)
  have i0: "fromarray \<lparr>dtype = UInt8, shape = [1, 1, 3], data = [1, 2, 3]\<rparr> None =
      Inr \<lparr>mode = ''RGB'', width = 1, height = 1, pixels = [1, 2, 3]\<rparr>"
    by (simp add: fromarray_def typemap_uint8_def ndmax_def ndim_def)
  have i1: "fromarray \<lparr>dtype = UInt8, shape = [1, 1, 3], data = [4, 5, 6]\<rparr> None =
      Inr \<lparr>mode = ''RGB'', width = 1, height = 1, pixels = [4, 5, 6]\<rparr>"
    by (simp add: fromarray_def typemap_uint8_def ndmax_def ndim_def)
  have lt0: "(0::nat) < hd (shape example_color)" by (simp add: n)
  have lt1: "(1::nat) < hd (shape example_color)" by (simp add: n)
  from f [rule_format, OF lt0] obtain frame0 im0 where
    a0: "normalize_frame (index0 example_color 0) = Inr frame0"
    and b0: "fromarray frame0 None = Inr im0"
    and c0: "files s' (join ?out (frame_filename 0)) = Some im0" by blast
  from a0 have "frame0 = \<lparr>dtype = UInt8, shape = [1, 1, 3], data = [1, 2, 3]\<rparr>"
    by (simp only: e0 sum.inject)
  with b0 have "im0 = \<lparr>mode = ''RGB'', width = 1, height = 1, pixels = [1, 2, 3]\<rparr>"
    by (simp only: i0 sum.inject)
  with c0 [unfolded out example_paths]
  have f0: "files s' ''/srv/extracted_images/a_extracted/frame_0000.png'' =
      Some \<lparr>mode = ''RGB'', width = 1, height = 1, pixels = [1, 2, 3]\<rparr>" by simp
  from f [rule_format, OF lt1] obtain frame1 im1 where
    a1: "normalize_frame (index0 example_color 1) = Inr frame1"
    and b1: "fromarray frame1 None = Inr im1"
    and c1: "files s' (join ?out (frame_filename 1)) = Some im1" by blast
  from a1 have "frame1 = \<lparr>dtype = UInt8, shape = [1, 1, 3], data = [4, 5, 6]\<rparr>"
    by (simp only: e1 sum.inject)
  with b1 have "im1 = \<lparr>mode = ''RGB'', width = 1, height = 1, pixels = [4, 5, 6]\<rparr>"
    by (simp only: i1 sum.inject)
  with c1 [unfolded out example_paths]
  have f1: "files s' ''/srv/extracted_images/a_extracted/frame_0001.png'' =
      Some \<lparr>mode = ''RGB'', width = 1, height = 1, pixels = [4, 5, 6]\<rparr>" by simp
  from r f0 f1 h4 h5 n ch show ?thesis by simp
qed

text \<open>
  The claim as stated, exactly \<open>N\<close> files for every array of rank 4, fails for one frame
  of five channels: the encoder has no mode for it, and no file is written.
\<close>

theorem rank4_five_channels_counterexample:
  "ndim example_five_channels = 4 \<and> hd (shape example_five_channels) = 1 \<and>
   extract_frames_from_dicom (example_world example_five_channels) ''scans/a.dcm''
      ''extracted_images'' empty_state =
     (None, \<lparr>dirs = {''/srv/extracted_images/a_extracted''}, files = Map.empty,
             stdout = [Processing ''a.dcm'', FoundFramesMultiChannel 1,
                       ErrUnexpected ''a.dcm'' TypeError]\<rparr>)"
proof -
  let ?w = "example_world example_five_channels"
  let ?ds = "\<lparr>tags = [pixel_data_tag], pixel_array = Inr example_five_channels\<rparr>"
  have n: "ndim example_five_channels = 4" "hd (shape example_five_channels) = 1"
    by (simp_all add: ndim_def example_five_channels_def)
  have fr: "index0 example_five_channels 0 =
      \<lparr>dtype = UInt8, shape = [1, 1, 5], data = [1, 2, 3, 4, 5]\<rparr>"
    by (simp add: index0_def example_five_channels_def)
  have body: "process_frame_4d ?w out 0 (index0 example_five_channels 0) t = (Some TypeError, t)"
    for out t
    unfolding fr
    by (simp add: process_frame_4d_def normalize_frame_def fromarray_def typemap_uint8_def)
  have loop: "for_range (\<lambda>i. process_frame_4d ?w out i (index0 example_five_channels i)) [0..<1] t =
      (Some TypeError, t)" for out t
    by (simp add: body)
  have ex: "exists (print (Processing (basename ''scans/a.dcm'')) empty_state)
       (specific_output_path ?w ''scans/a.dcm'' ''extracted_images'') \<or>
     makedirs_error ?w (specific_output_path ?w ''scans/a.dcm'' ''extracted_images'') = None"
    by (simp add: example_decodes)
  have h2: "pixel_data_tag \<in> set (tags ?ds)" by simp
  have h3: "pixel_array ?ds = Inr example_five_channels" by simp
  have "try_body ?w ''scans/a.dcm'' ''extracted_images''
      (print (Processing (basename ''scans/a.dcm'')) empty_state) =
    (Some TypeError, \<lparr>dirs = {''/srv/extracted_images/a_extracted''}, files = Map.empty,
             stdout = [Processing ''a.dcm'', FoundFramesMultiChannel 1]\<rparr>)"
    unfolding try_body_pixel [OF example_decodes(1) h2 h3 ex]
    by (simp add: process_pixel_array_def n loop body Let_def example_out example_basename
          exists_def empty_state_def print_def)
  then show ?thesis
    by (simp add: extract_frames_from_dicom_def n example_basename print_def)
qed

section \<open>Exceptions\<close>





end
